theory Spec2Isabelle
  imports Complex_Main "HOL-Library.AList" "HOL-Library.Char_ord" "HOL-Library.List_Lexorder"
    "HOL-Library.Multiset"
begin

text \<open>
  The dispatch and session subsystem of the AGYC orchestrator: the configuration loader
  (\<open>config.py\<close>), the subprocess session (\<open>sessions/subprocess_session.py\<close>), the session
  handle (\<open>session_manager.py\<close>), the dispatcher with its router and worker fibers
  (\<open>dispatcher.py\<close>) and the handler of \<open>POST /v1/messages\<close> (\<open>api.py\<close>), embedded as
  functions over an explicit state, followed by the properties proved of them.
\<close>

section \<open>Python values\<close>

text \<open>
  A Python \<open>str\<close> is modelled as a \<open>string\<close> holding the bytes of its UTF-8 encoding, so
  comparing two strings byte by byte agrees with Python's comparison by code point.
  Timestamps and health scores are Python floats; every score the dispatcher computes is a
  multiple of one half between 0 and 100, which binary floating point represents exactly,
  so they are modelled as rationals.

  Requests are mutable objects shared with the caller: they live in a heap of objects and
  are referred to by address. Results come fresh out of \<open>json.loads\<close> and are owned by the
  worker that received them: they are modelled as immutable trees.
\<close>

type_synonym addr = nat

datatype pyval = PNone | PBool bool | PInt int | PFloat rat | PStr string | PRef addr

datatype pyobj = PDict "(string \<times> pyval) list" | PList "pyval list"

type_synonym heap = "pyobj list"

datatype json = JNull | JBool bool | JInt int | JFloat rat | JStr string
  | JArr "json list" | JObj "(string \<times> json) list"

datatype exn = RuntimeError string | TimeoutError | AttributeError | TypeError
  | ValueError string | OSError string

definition heap_get :: "heap \<Rightarrow> addr \<Rightarrow> pyobj option" where
  "heap_get hp a = (if a < length hp then Some (hp ! a) else None)"

text \<open>Python's truth value of an object (\<open>bool(x)\<close>, as \<open>or\<close> and \<open>if\<close> test it).\<close>

fun truthy :: "heap \<Rightarrow> pyval \<Rightarrow> bool" where
  "truthy hp PNone = False"
| "truthy hp (PBool b) = b"
| "truthy hp (PInt i) = (i \<noteq> 0)"
| "truthy hp (PFloat r) = (r \<noteq> 0)"
| "truthy hp (PStr s) = (s \<noteq> [])"
| "truthy hp (PRef a) =
     (case heap_get hp a of
        Some (PDict d) \<Rightarrow> d \<noteq> []
      | Some (PList l) \<Rightarrow> l \<noteq> []
      | None \<Rightarrow> True)"

fun json_truthy :: "json \<Rightarrow> bool" where
  "json_truthy JNull = False"
| "json_truthy (JBool b) = b"
| "json_truthy (JInt i) = (i \<noteq> 0)"
| "json_truthy (JFloat r) = (r \<noteq> 0)"
| "json_truthy (JStr s) = (s \<noteq> [])"
| "json_truthy (JArr xs) = (xs \<noteq> [])"
| "json_truthy (JObj kvs) = (kvs \<noteq> [])"

text \<open>The entries of the dict a value refers to; \<open>None\<close> when the value is no dict.\<close>

definition as_dict :: "heap \<Rightarrow> pyval \<Rightarrow> (string \<times> pyval) list option" where
  "as_dict hp v =
     (case v of
        PRef a \<Rightarrow> (case heap_get hp a of Some (PDict d) \<Rightarrow> Some d | _ \<Rightarrow> None)
      | _ \<Rightarrow> None)"

subsection \<open>Dictionaries\<close>

text \<open>
  A dict keeps its keys in insertion order: an association list with distinct keys.
  \<open>d[k] = v\<close> is \<^const>\<open>AList.update\<close>: it overwrites in place or appends.
\<close>

definition dict_get :: "(string \<times> 'v) list \<Rightarrow> string \<Rightarrow> 'v \<Rightarrow> 'v" where
  "dict_get d k dflt = (case map_of d k of None \<Rightarrow> dflt | Some v \<Rightarrow> v)"

definition dict_setdefault :: "(string \<times> 'v) list \<Rightarrow> string \<Rightarrow> 'v \<Rightarrow> (string \<times> 'v) list" where
  "dict_setdefault d k v = (case map_of d k of None \<Rightarrow> d @ [(k, v)] | Some _ \<Rightarrow> d)"

definition dict_update :: "(string \<times> 'v) list \<Rightarrow> (string \<times> 'v) list \<Rightarrow> (string \<times> 'v) list" where
  "dict_update d e = fold (\<lambda>(k, v). AList.update k v) e d"

subsection \<open>Strings\<close>

definition lower_char :: "char \<Rightarrow> char" where
  "lower_char c =
     (case map_of (zip ''ABCDEFGHIJKLMNOPQRSTUVWXYZ'' ''abcdefghijklmnopqrstuvwxyz'') c of
        None \<Rightarrow> c
      | Some l \<Rightarrow> l)"

text \<open>
  \<open>str.lower\<close> on the ASCII letters. Python also lowers letters beyond ASCII; none of
  them lowers to a string of ASCII letters that spells a strategy name, so the tests
  against the strategy names below are those of the source.
\<close>

definition lower :: "string \<Rightarrow> string" where
  "lower s = map lower_char s"

text \<open>
  The characters \<open>str.isspace\<close> holds of, each as the bytes of its UTF-8 encoding:
  U+0009 to U+000D, U+001C to U+0020, U+0085, U+00A0, U+1680, U+2000 to U+200A, U+2028,
  U+2029, U+202F, U+205F and U+3000.
\<close>

definition whitespace :: "string list" where
  "whitespace =
     map (\<lambda>c. [c])
       [CHR 0x09, CHR 0x0A, CHR 0x0B, CHR 0x0C, CHR 0x0D, CHR 0x1C, CHR 0x1D, CHR 0x1E, CHR 0x1F,
        CHR 0x20]
     @ [[CHR 0xC2, CHR 0x85], [CHR 0xC2, CHR 0xA0], [CHR 0xE1, CHR 0x9A, CHR 0x80]]
     @ map (\<lambda>c. [CHR 0xE2, CHR 0x80, c])
         [CHR 0x80, CHR 0x81, CHR 0x82, CHR 0x83, CHR 0x84, CHR 0x85, CHR 0x86, CHR 0x87,
          CHR 0x88, CHR 0x89, CHR 0x8A, CHR 0xA8, CHR 0xA9, CHR 0xAF]
     @ [[CHR 0xE2, CHR 0x81, CHR 0x9F], [CHR 0xE3, CHR 0x80, CHR 0x80]]"

text \<open>The string without the characters of \<open>ws\<close> it starts with.\<close>

function drop_leading :: "string list \<Rightarrow> string \<Rightarrow> string" where
  "drop_leading ws s =
     (case find (\<lambda>w. w \<noteq> [] \<and> take (length w) s = w) ws of
        None \<Rightarrow> s
      | Some w \<Rightarrow> drop_leading ws (drop (length w) s))"
  by pat_completeness auto
termination
proof (relation "measure (\<lambda>(ws, s). length s)")
  show "wf (measure (\<lambda>(ws, s). length s))" by simp
next
  fix ws :: "string list" and s w :: string
  assume "find (\<lambda>w. w \<noteq> [] \<and> take (length w) s = w) ws = Some w"
  then have w: "w \<noteq> []" and t: "take (length w) s = w" by (auto simp: find_Some_iff)
  from w t have "s \<noteq> []" by auto
  with w show "((ws, drop (length w) s), (ws, s)) \<in> measure (\<lambda>(ws, s). length s)" by simp
qed

text \<open>\<open>str.strip()\<close>: whitespace is taken off both ends. In UTF-8 no encoding of a
  character ends another one, so the end of the string is read backwards.\<close>

definition strip :: "string \<Rightarrow> string" where
  "strip s = rev (drop_leading (map rev whitespace) (rev (drop_leading whitespace s)))"

definition digit_char :: "nat \<Rightarrow> char" where
  "digit_char n = ''0123456789'' ! n"

function digits :: "nat \<Rightarrow> string" where
  "digits n = (if n < 10 then [digit_char n] else digits (n div 10) @ [digit_char (n mod 10)])"
  by pat_completeness auto
termination
  by (relation "measure id") auto

text \<open>\<open>str(i)\<close> of an integer, as an f-string writes it.\<close>

definition str_int :: "int \<Rightarrow> string" where
  "str_int i = (if i < 0 then CHR ''-'' # digits (nat (- i)) else digits (nat i))"

subsection \<open>Library functions\<close>

text \<open>
  Functions of the Python runtime and standard library that the repository calls and
  does not define are parameters of the model: UTF-8 decoding (strict: \<open>None\<close> is
  \<open>UnicodeDecodeError\<close>; and with \<open>errors='replace'\<close>), \<open>json.loads\<close> (\<open>None\<close> is
  \<open>JSONDecodeError\<close>), \<open>str()\<close> of a float, list or dict, \<open>list()\<close> of a value that is
  no list, \<open>int()\<close> of a value that is no integer, and \<open>os.path.expanduser\<close>.
\<close>

record pylib =
  decode_utf8 :: "string \<Rightarrow> string option"
  decode_utf8_replace :: "string \<Rightarrow> string"
  json_loads :: "string \<Rightarrow> json option"
  py_repr :: "json \<Rightarrow> string"
  py_list :: "json \<Rightarrow> exn + json list"
  py_int :: "json \<Rightarrow> exn + int"
  expanduser :: "string \<Rightarrow> string"

definition py_str :: "pylib \<Rightarrow> json \<Rightarrow> string" where
  "py_str lib v =
     (case v of
        JStr s \<Rightarrow> s
      | JInt i \<Rightarrow> str_int i
      | JNull \<Rightarrow> ''None''
      | JBool b \<Rightarrow> (if b then ''True'' else ''False'')
      | _ \<Rightarrow> py_repr lib v)"

definition int_of :: "pylib \<Rightarrow> json \<Rightarrow> exn + int" where
  "int_of lib v =
     (case v of
        JInt i \<Rightarrow> Inr i
      | JBool b \<Rightarrow> Inr (if b then 1 else 0)
      | _ \<Rightarrow> py_int lib v)"

definition list_of :: "pylib \<Rightarrow> json \<Rightarrow> exn + json list" where
  "list_of lib v = (case v of JArr xs \<Rightarrow> Inr xs | _ \<Rightarrow> py_list lib v)"

section \<open>config.py\<close>

text \<open>The field \<open>id\<close> of \<open>AccountConfig\<close> is written \<open>id'\<close>, \<open>max_concurrency\<close> is
  \<open>cfg_max_concurrency\<close> (the name \<open>max_concurrency\<close> is kept for \<open>SessionHandle\<close>).\<close>

record AccountConfig =
  id' :: string
  state_dir :: string
  start_command :: "json list option"
  health_command :: "json list option"
  task_command :: "json list option"
  env :: "(string \<times> string) list"
  cfg_max_concurrency :: int

record DispatcherConfig =
  routing :: string
  global_queue_size :: int
  per_account_queue_size :: int
  task_timeout_seconds :: int
  health_check_interval_seconds :: int

text \<open>\<open>list(a.get(key) or []) or None\<close>\<close>

definition command_of :: "pylib \<Rightarrow> (string \<times> json) list \<Rightarrow> string \<Rightarrow> exn + json list option" where
  "command_of lib a k =
     (let v = dict_get a k JNull in
      if \<not> json_truthy v then Inr None
      else (case list_of lib v of
              Inl e \<Rightarrow> Inl e
            | Inr xs \<Rightarrow> Inr (if xs = [] then None else Some xs)))"

text \<open>\<open>{str(k): str(v) for k, v in (a.get("env") or {}).items()}\<close>\<close>

definition env_of :: "pylib \<Rightarrow> (string \<times> json) list \<Rightarrow> exn + (string \<times> string) list" where
  "env_of lib a =
     (let v = dict_get a ''env'' JNull in
      if \<not> json_truthy v then Inr []
      else (case v of
              JObj kvs \<Rightarrow> Inr (fold (\<lambda>(k, x). AList.update k (py_str lib x)) kvs [])
            | _ \<Rightarrow> Inl AttributeError))"

text \<open>The body of the loop over \<open>accounts_raw\<close> in \<open>load_config\<close>: one account object
  to its \<open>AccountConfig\<close>.\<close>

definition load_account :: "pylib \<Rightarrow> json \<Rightarrow> exn + AccountConfig" where
  "load_account lib a =
     (case a of
        JObj kv \<Rightarrow>
          (let account_id = strip (py_str lib (dict_get kv ''id'' (JStr ''''))) in
           if account_id = [] then Inl (ValueError ''Account id is required'')
           else
             (let sd = strip (py_str lib (dict_get kv ''stateDir'' (JStr ''''))) in
              if sd = [] then Inl (ValueError (''Account '' @ account_id @ '' stateDir is required''))
              else
                (case env_of lib kv of
                   Inl e \<Rightarrow> Inl e
                 | Inr env0 \<Rightarrow>
                     (let env1 = dict_setdefault env0 ''AG_CONFIG_DIR'' sd in
                      case command_of lib kv ''startCommand'' of
                        Inl e \<Rightarrow> Inl e
                      | Inr sc \<Rightarrow>
                          (case command_of lib kv ''healthCommand'' of
                             Inl e \<Rightarrow> Inl e
                           | Inr hc \<Rightarrow>
                               (case command_of lib kv ''taskCommand'' of
                                  Inl e \<Rightarrow> Inl e
                                | Inr tc \<Rightarrow>
                                    (case int_of lib (dict_get kv ''maxConcurrency'' (JInt 1)) of
                                       Inl e \<Rightarrow> Inl e
                                     | Inr mc \<Rightarrow>
                                         Inr \<lparr> id' = account_id,
                                               state_dir = expanduser lib sd,
                                               start_command = sc,
                                               health_command = hc,
                                               task_command = tc,
                                               env = env1,
                                               cfg_max_concurrency = max 1 mc \<rparr>)))))))
      | _ \<Rightarrow> Inl (ValueError ''Each account must be an object''))"

section \<open>sessions/subprocess\_session.py\<close>

text \<open>\<open>SubprocessSession._env\<close>: the environment handed to every command the session
  spawns (\<open>start\<close>, \<open>_run_command_ok\<close> and \<open>run_task\<close> all pass \<open>env=self._env()\<close>).
  The first argument is \<open>os.environ\<close>.\<close>

definition SubprocessSession_env :: "(string \<times> string) list \<Rightarrow> AccountConfig \<Rightarrow> (string \<times> string) list" where
  "SubprocessSession_env os_environ c =
     dict_setdefault (dict_update os_environ (env c)) ''AG_CONFIG_DIR'' (state_dir c)"

text \<open>What \<open>proc.communicate\<close> returns once the child has exited.\<close>

record proc_result =
  returncode :: int
  stdout :: string
  stderr :: string

text \<open>\<open>SubprocessSession.run_task\<close>. The last argument is what became of the spawned
  command: the exception \<open>create_subprocess_exec\<close> raised, or the exited child.\<close>

definition run_task :: "pylib \<Rightarrow> AccountConfig \<Rightarrow> exn + proc_result \<Rightarrow> exn + json" where
  "run_task lib c spawned =
     (if task_command c = None \<or> task_command c = Some [] then
        Inl (RuntimeError (''Account '' @ id' c @ '' has no taskCommand configured''))
      else
        (case spawned of
           Inl e \<Rightarrow> Inl e
         | Inr p \<Rightarrow>
             if returncode p \<noteq> 0 then
               Inl (RuntimeError (''taskCommand failed for '' @ id' c @ '' rc='' @
                      str_int (returncode p) @ '': '' @ decode_utf8_replace lib (stderr p)))
             else
               (case decode_utf8 lib (stdout p) of
                  None \<Rightarrow> Inr (JObj [(''raw'', JStr (decode_utf8_replace lib (stdout p)))])
                | Some s \<Rightarrow>
                    (case json_loads lib s of
                       None \<Rightarrow> Inr (JObj [(''raw'', JStr (decode_utf8_replace lib (stdout p)))])
                     | Some j \<Rightarrow> Inr j))))"

section \<open>session\_manager.py\<close>

text \<open>\<open>SessionHandle\<close>. The only implementation of \<open>IDESession\<close> is \<open>SubprocessSession\<close>,
  whose state the dispatcher depends on is its \<open>AccountConfig\<close>.\<close>

record SessionHandle =
  account_id :: string
  session :: AccountConfig
  max_concurrency :: int

section \<open>dispatcher.py\<close>

record AccountMetrics =
  tasks_total :: int
  errors_total :: int
  latency_ms_total :: rat
  last_success_ts :: "rat option"
  last_error_ts :: "rat option"

text \<open>A \<open>TaskItem\<close> holds references: the address of its request dict in the heap and the
  index of its \<open>asyncio.Future\<close> among the futures created so far.\<close>

record TaskItem =
  request :: addr
  future :: nat
  created_ts :: rat
  task_id :: string

datatype fut = FPending | FResult json | FException exn | FCancelled

record AccountState =
  handle :: SessionHandle
  queue :: "TaskItem list"
  semaphore :: int
  last_used_ts :: rat
  health_score :: rat
  inflight :: int
  metrics :: AccountMetrics

text \<open>
  The dispatcher runs under asyncio: a fiber runs alone from one \<open>await\<close> to the next.
  The state of a fiber is the \<open>await\<close> it is suspended at, with its local variables.

  The router (\<open>_router_loop\<close>) is suspended in \<open>global_queue.get()\<close> (\<open>RGet\<close>), at the head
  of its inner loop after one of the two sleeps or after the capacity wait (\<open>RPick\<close>), or in
  \<open>wait_for(capacity_event.wait(), 1.0)\<close> (\<open>RWaitCapacity\<close>); or it is over, having
  returned or raised. A worker (\<open>_account_worker\<close>) is suspended in \<open>acc.queue.get()\<close>
  (\<open>WGet\<close>), in \<open>acc.semaphore.acquire()\<close> (\<open>WAcquire\<close>) or in
  \<open>wait_for(run_task(req), timeout)\<close> (\<open>WRun\<close>), the last two holding \<open>item\<close> and \<open>start\<close>.
\<close>

datatype router_state = RGet | RPick TaskItem pyval | RWaitCapacity TaskItem pyval
  | RReturned | RRaised exn

datatype worker_state = WGet | WAcquire TaskItem rat | WRun TaskItem rat | WReturned

text \<open>The \<open>Dispatcher\<close> object, with the heap of request objects and the futures it
  created. A worker is named by the key of its account in \<open>accounts\<close>.\<close>

record Dispatcher =
  cfg :: DispatcherConfig
  global_queue :: "TaskItem list"
  accounts :: "(string \<times> AccountState) list"
  router_task :: "router_state option"
  workers :: "(string \<times> worker_state) list"
  stop_event :: bool
  rr_cursor :: nat
  capacity_event :: bool
  heap :: heap
  futures :: "fut list"

definition new_account :: "SessionHandle \<Rightarrow> AccountState" where
  "new_account h =
     \<lparr> handle = h, queue = [], semaphore = max_concurrency h, last_used_ts = 0,
       health_score = 100, inflight = 0,
       metrics = \<lparr> tasks_total = 0, errors_total = 0, latency_ms_total = 0,
                   last_success_ts = None, last_error_ts = None \<rparr> \<rparr>"

text \<open>\<open>Dispatcher.__init__\<close>; \<open>asyncio.Semaphore\<close> refuses a negative initial value.\<close>

definition Dispatcher_init ::
    "DispatcherConfig \<Rightarrow> (string \<times> SessionHandle) list \<Rightarrow> heap \<Rightarrow> exn + Dispatcher" where
  "Dispatcher_init c sessions hp =
     (if list_ex (\<lambda>(aid, h). max_concurrency h < 0) sessions then
        Inl (ValueError ''Semaphore initial value must be >= 0'')
      else
        Inr \<lparr> cfg = c, global_queue = [],
              accounts = fold (\<lambda>(aid, h). AList.update aid (new_account h)) sessions [],
              router_task = None, workers = [], stop_event = False, rr_cursor = 0,
              capacity_event = False, heap = hp, futures = [] \<rparr>)"

text \<open>\<open>asyncio.Queue.full()\<close>: a queue with \<open>maxsize <= 0\<close> is never full.\<close>

definition queue_full :: "int \<Rightarrow> 'a list \<Rightarrow> bool" where
  "queue_full maxsize q = (0 < maxsize \<and> maxsize \<le> int (length q))"

text \<open>\<open>Dispatcher.submit\<close> up to its \<open>await fut\<close>: it raises, or it returns the state with
  the new item queued and the index of the future the caller then awaits. \<open>dict(request)\<close>
  allocates a new dict holding the entries of the caller's. The request is a mapping, as
  the signature of \<open>submit\<close> has it and as \<open>api.py\<close> passes it; an object that is no dict is
  outside the model, which answers it with \<open>TypeError\<close> whatever \<open>dict()\<close> makes of it.
  The arguments after the request are \<open>uuid.uuid4().hex\<close> and \<open>time.time()\<close>.\<close>

definition submit :: "Dispatcher \<Rightarrow> addr \<Rightarrow> string \<Rightarrow> rat \<Rightarrow> exn + (Dispatcher \<times> nat)" where
  "submit d r uuid_hex now =
     (if queue_full (global_queue_size (cfg d)) (global_queue d) then
        Inl (RuntimeError ''Global queue is full'')
      else
        (case heap_get (heap d) r of
           Some (PDict entries) \<Rightarrow>
             (let item = \<lparr> request = length (heap d), future = length (futures d),
                           created_ts = now, task_id = ''task_'' @ take 12 uuid_hex \<rparr>
              in Inr (d\<lparr> heap := heap d @ [PDict entries],
                         futures := futures d @ [FPending],
                         global_queue := global_queue d @ [item] \<rparr>, future item))
         | _ \<Rightarrow> Inl TypeError))"

text \<open>\<open>_usable_accounts\<close>, each account with its key.\<close>

definition usable_accounts :: "Dispatcher \<Rightarrow> (string \<times> AccountState) list" where
  "usable_accounts d = filter (\<lambda>(k, a). 0 < health_score a) (accounts d)"

text \<open>Python's \<open>min(xs, key=f)\<close> and \<open>max(xs, key=f)\<close> walk the list once and replace
  the best element so far only by a strictly better one.\<close>

fun py_min_by :: "('a \<Rightarrow> 'k::linorder) \<Rightarrow> 'a \<Rightarrow> 'a list \<Rightarrow> 'a" where
  "py_min_by f best [] = best"
| "py_min_by f best (x # xs) = py_min_by f (if f x < f best then x else best) xs"

fun py_max_by :: "('a \<Rightarrow> 'k::linorder) \<Rightarrow> 'a \<Rightarrow> 'a list \<Rightarrow> 'a" where
  "py_max_by f best [] = best"
| "py_max_by f best (x # xs) = py_max_by f (if f best < f x then x else best) xs"

text \<open>The first line of \<open>_pick_account\<close>:
  \<open>(hint or self._cfg.routing or "round-robin").lower()\<close>. Only a \<open>str\<close> has \<open>lower\<close>.\<close>

definition strategy_of :: "Dispatcher \<Rightarrow> pyval \<Rightarrow> exn + string" where
  "strategy_of d hint =
     (if truthy (heap d) hint then
        (case hint of PStr s \<Rightarrow> Inr (lower s) | _ \<Rightarrow> Inl AttributeError)
      else if routing (cfg d) \<noteq> [] then Inr (lower (routing (cfg d)))
      else Inr (lower ''round-robin''))"

text \<open>\<open>_pick_account\<close>: the chosen account with its key, and the dispatcher with the
  cursor moved.\<close>

definition pick_account ::
    "Dispatcher \<Rightarrow> pyval \<Rightarrow> exn + ((string \<times> AccountState) option \<times> Dispatcher)" where
  "pick_account d hint =
     (case strategy_of d hint of
        Inl e \<Rightarrow> Inl e
      | Inr strategy \<Rightarrow>
          (let usable = usable_accounts d in
           if usable = [] then Inr (None, d)
           else if strategy \<in> set [''lru'', ''least-recently-used'', ''least_recently_used''] then
             Inr (Some (py_min_by (\<lambda>(k, a). last_used_ts a) (hd usable) (tl usable)), d)
           else if strategy \<in> set [''health'', ''health-score'', ''health_score''] then
             Inr (Some (py_max_by (\<lambda>(k, a). health_score a) (hd usable) (tl usable)), d)
           else
             (let ordered = sort_key (\<lambda>(k, a). account_id (handle a)) usable;
                  cur = rr_cursor d mod length ordered;
                  chosen = ordered ! cur
              in Inr (Some chosen, d\<lparr> rr_cursor := (cur + 1) mod length ordered \<rparr>))))"

text \<open>The hint the router reads from an item:
  \<open>(item.request.get("metadata") or {}).get("routing", {}).get("strategyHint")\<close>.
  Only a dict has \<open>get\<close>.\<close>

definition request_hint :: "heap \<Rightarrow> addr \<Rightarrow> exn + pyval" where
  "request_hint hp r =
     (case as_dict hp (PRef r) of
        None \<Rightarrow> Inl AttributeError
      | Some req \<Rightarrow>
          (let m = dict_get req ''metadata'' PNone in
           if \<not> truthy hp m then Inr PNone
           else
             (case as_dict hp m of
                None \<Rightarrow> Inl AttributeError
              | Some md \<Rightarrow>
                  (case map_of md ''routing'' of
                     None \<Rightarrow> Inr PNone
                   | Some rt \<Rightarrow>
                       (case as_dict hp rt of
                          None \<Rightarrow> Inl AttributeError
                        | Some rd \<Rightarrow> Inr (dict_get rd ''strategyHint'' PNone))))))"

text \<open>The three updates of \<open>health_score\<close> in the source: \<open>min(100.0, h + 0.5)\<close> after
  a task that succeeded, \<open>max(0.0, h - 5.0)\<close> after one that failed, and
  \<open>max(0.0, h - 1.0)\<close> when the local queue of the picked account is full.\<close>

definition on_success :: "rat \<Rightarrow> rat" where
  "on_success h = min 100 (h + 1 / 2)"

definition on_error :: "rat \<Rightarrow> rat" where
  "on_error h = max 0 (h - 5)"

definition on_queue_full :: "rat \<Rightarrow> rat" where
  "on_queue_full h = max 0 (h - 1)"

subsection \<open>The router fiber\<close>

text \<open>\<open>_router_loop\<close>, from \<open>global_queue.get()\<close> returning an item to the head of the
  inner loop.\<close>

definition router_get :: "Dispatcher \<Rightarrow> Dispatcher option" where
  "router_get d =
     (case router_task d of
        Some RGet \<Rightarrow>
          (case global_queue d of
             [] \<Rightarrow> None
           | item # rest \<Rightarrow>
               Some (d\<lparr> global_queue := rest,
                        router_task :=
                          Some (case request_hint (heap d) (request item) of
                                  Inl e \<Rightarrow> RRaised e
                                | Inr hint \<Rightarrow> RPick item hint) \<rparr>))
      | _ \<Rightarrow> None)"

text \<open>One turn of the inner loop of \<open>_router_loop\<close>, from its head to the next \<open>await\<close>.\<close>

definition router_pick :: "Dispatcher \<Rightarrow> Dispatcher option" where
  "router_pick d =
     (case router_task d of
        Some (RPick item hint) \<Rightarrow>
          Some (if stop_event d then d\<lparr> router_task := Some RReturned \<rparr>
                else
                  (case pick_account d hint of
                     Inl e \<Rightarrow> d\<lparr> router_task := Some (RRaised e) \<rparr>
                   | Inr (None, d1) \<Rightarrow> d1
                   | Inr (Some (aid, acc), d1) \<Rightarrow>
                       if max_concurrency (handle acc) \<le> inflight acc then
                         d1\<lparr> capacity_event := False,
                             router_task := Some (RWaitCapacity item hint) \<rparr>
                       else if queue_full (per_account_queue_size (cfg d1)) (queue acc) then
                         d1\<lparr> accounts :=
                               AList.map_entry aid
                                 (\<lambda>a. a\<lparr> health_score := on_queue_full (health_score a) \<rparr>)
                                 (accounts d1) \<rparr>
                       else
                         d1\<lparr> accounts :=
                               AList.map_entry aid (\<lambda>a. a\<lparr> queue := queue a @ [item] \<rparr>)
                                 (accounts d1),
                             router_task := Some RGet \<rparr>))
      | _ \<Rightarrow> None)"

text \<open>The end of \<open>await asyncio.wait_for(self._capacity_event.wait(), timeout=1.0)\<close>:
  a worker has set the event and the router goes on to the head of the inner loop, or
  the second passes with the event unset and \<open>wait_for\<close> raises \<open>TimeoutError\<close>, which
  nothing in \<open>_router_loop\<close> catches.\<close>

definition router_capacity_wake :: "Dispatcher \<Rightarrow> Dispatcher option" where
  "router_capacity_wake d =
     (case router_task d of
        Some (RWaitCapacity item hint) \<Rightarrow>
          if capacity_event d then Some (d\<lparr> router_task := Some (RPick item hint) \<rparr>) else None
      | _ \<Rightarrow> None)"

definition router_capacity_timeout :: "Dispatcher \<Rightarrow> Dispatcher option" where
  "router_capacity_timeout d =
     (case router_task d of
        Some (RWaitCapacity item hint) \<Rightarrow>
          if capacity_event d then None else Some (d\<lparr> router_task := Some (RRaised TimeoutError) \<rparr>)
      | _ \<Rightarrow> None)"

subsection \<open>The worker fibers\<close>

text \<open>\<open>_account_worker\<close>, from \<open>acc.queue.get()\<close> returning an item to the next \<open>await\<close>:
  the semaphore is taken and \<open>run_task\<close> is started, or the semaphore has no permit and
  the worker waits for one. The last argument is \<open>time.time()\<close>. (The dict \<open>req\<close> built
  for the session is used by the session only and is left out of the heap.)\<close>

definition worker_get :: "Dispatcher \<Rightarrow> string \<Rightarrow> rat \<Rightarrow> Dispatcher option" where
  "worker_get d aid now =
     (case map_of (workers d) aid of
        Some WGet \<Rightarrow>
          (case map_of (accounts d) aid of
             None \<Rightarrow> None
           | Some acc \<Rightarrow>
               (case queue acc of
                  [] \<Rightarrow> None
                | item # rest \<Rightarrow>
                    Some (if 0 < semaphore acc then
                            d\<lparr> accounts :=
                                 AList.map_entry aid
                                   (\<lambda>a. a\<lparr> queue := rest, semaphore := semaphore a - 1,
                                           inflight := inflight a + 1 \<rparr>)
                                   (accounts d),
                               workers := AList.update aid (WRun item now) (workers d) \<rparr>
                          else
                            d\<lparr> accounts :=
                                 AList.map_entry aid (\<lambda>a. a\<lparr> queue := rest \<rparr>) (accounts d),
                               workers := AList.update aid (WAcquire item now) (workers d) \<rparr>)))
      | _ \<Rightarrow> None)"

text \<open>How \<open>wait_for(acc.handle.session.run_task(req), timeout)\<close> ends: the spawned
  command is over (or could not be spawned) before the timeout, or the timeout passes.\<close>

datatype task_outcome = Exited "exn + proc_result" | TimedOut

definition task_result :: "pylib \<Rightarrow> AccountState \<Rightarrow> task_outcome \<Rightarrow> exn + json" where
  "task_result lib acc out =
     (case out of
        TimedOut \<Rightarrow> Inl TimeoutError
      | Exited spawned \<Rightarrow> run_task lib (session (handle acc)) spawned)"

text \<open>\<open>result.setdefault("metadata", {})\<close> and
  \<open>result["metadata"] = {**(result.get("metadata") or {}), "account_id": ...}\<close>.
  Only a dict has \<open>setdefault\<close>, and \<open>**\<close> unpacks only a mapping.\<close>

definition inject_account_id :: "string \<Rightarrow> json \<Rightarrow> exn + json" where
  "inject_account_id aid result =
     (case result of
        JObj kvs \<Rightarrow>
          (let kvs1 = dict_setdefault kvs ''metadata'' (JObj []);
               m = dict_get kvs1 ''metadata'' JNull
           in if \<not> json_truthy m then
                Inr (JObj (AList.update ''metadata'' (JObj [(''account_id'', JStr aid)]) kvs1))
              else
                (case m of
                   JObj mkvs \<Rightarrow>
                     Inr (JObj (AList.update ''metadata''
                                  (JObj (AList.update ''account_id'' (JStr aid) mkvs)) kvs1))
                 | _ \<Rightarrow> Inl TypeError))
      | _ \<Rightarrow> Inl AttributeError)"

definition released :: "AccountState \<Rightarrow> AccountState" where
  "released a = a\<lparr> inflight := inflight a - 1, semaphore := semaphore a + 1 \<rparr>"

definition succeeded :: "rat \<Rightarrow> rat \<Rightarrow> AccountState \<Rightarrow> AccountState" where
  "succeeded start now a =
     a\<lparr> last_used_ts := now,
        health_score := on_success (health_score a),
        metrics := (metrics a)\<lparr> tasks_total := tasks_total (metrics a) + 1,
                                 latency_ms_total := latency_ms_total (metrics a) + (now - start) * 1000,
                                 last_success_ts := Some now \<rparr> \<rparr>"

definition failed :: "rat \<Rightarrow> AccountState \<Rightarrow> AccountState" where
  "failed now a =
     a\<lparr> health_score := on_error (health_score a),
        metrics := (metrics a)\<lparr> errors_total := errors_total (metrics a) + 1,
                                 last_error_ts := Some now \<rparr> \<rparr>"

text \<open>\<open>if not item.future.done(): item.future.set_result(...)\<close> (or \<open>set_exception\<close>).\<close>

definition fulfil :: "nat \<Rightarrow> fut \<Rightarrow> fut list \<Rightarrow> fut list" where
  "fulfil f v fs = (if f < length fs \<and> fs ! f = FPending then fs[f := v] else fs)"

text \<open>\<open>_account_worker\<close>, from the end of \<open>wait_for(run_task(req))\<close> back to
  \<open>acc.queue.get()\<close>: the inner \<open>finally\<close>, then the success path up to the first
  exception, the \<open>except Exception\<close> branch if there was one, and the outer \<open>finally\<close>.
  The clock reads of the step are taken at one instant, the last argument.\<close>

definition worker_finish ::
    "pylib \<Rightarrow> Dispatcher \<Rightarrow> string \<Rightarrow> task_outcome \<Rightarrow> rat \<Rightarrow> Dispatcher option" where
  "worker_finish lib d aid out now =
     (case map_of (workers d) aid of
        Some (WRun item start) \<Rightarrow>
          (case map_of (accounts d) aid of
             None \<Rightarrow> None
           | Some acc \<Rightarrow>
               (let (upd, v) =
                      (case task_result lib acc out of
                         Inl e \<Rightarrow> (failed now \<circ> released, FException e)
                       | Inr result \<Rightarrow>
                           (case inject_account_id (account_id (handle acc)) result of
                              Inl e \<Rightarrow> (failed now \<circ> succeeded start now \<circ> released, FException e)
                            | Inr r \<Rightarrow> (succeeded start now \<circ> released, FResult r)))
                in Some (d\<lparr> accounts := AList.map_entry aid upd (accounts d),
                            futures := fulfil (future item) v (futures d),
                            capacity_event := True,
                            workers := AList.update aid (if stop_event d then WReturned else WGet)
                                         (workers d) \<rparr>)))
      | _ \<Rightarrow> None)"

subsection \<open>Start and stop\<close>

text \<open>\<open>Dispatcher.start\<close>. \<open>api.py\<close> calls it once, on a new dispatcher, and \<open>stop\<close> once:
  it is modelled for a dispatcher that has no fibers.\<close>

definition start :: "Dispatcher \<Rightarrow> Dispatcher option" where
  "start d =
     (if router_task d = None \<and> workers d = [] then
        Some (d\<lparr> stop_event := False, router_task := Some RGet,
                 workers := map (\<lambda>(aid, a). (aid, WGet)) (accounts d) \<rparr>)
      else None)"

text \<open>What \<open>cancel()\<close> does to a worker: \<open>CancelledError\<close> is raised at its \<open>await\<close>. It is no
  \<open>Exception\<close>, so the \<open>except\<close> branch does not run and the item's future is not touched;
  the \<open>finally\<close> blocks the worker is inside of run.\<close>

definition cancel_worker :: "string \<times> worker_state \<Rightarrow> Dispatcher \<Rightarrow> Dispatcher" where
  "cancel_worker w d =
     (case snd w of
        WRun item t0 \<Rightarrow>
          d\<lparr> accounts := AList.map_entry (fst w) released (accounts d), capacity_event := True \<rparr>
      | WAcquire item t0 \<Rightarrow> d\<lparr> capacity_event := True \<rparr>
      | _ \<Rightarrow> d)"

text \<open>\<open>Dispatcher.stop\<close>: the event is set, the router and the workers are cancelled and
  awaited. A cancelled router runs no code of its own.\<close>

definition stop :: "Dispatcher \<Rightarrow> Dispatcher" where
  "stop d = (fold cancel_worker (workers d) (d\<lparr> stop_event := True \<rparr>))
              \<lparr> router_task := None, workers := [] \<rparr>"

subsection \<open>Executions\<close>

text \<open>
  An execution is a sequence of events: calls of \<open>start\<close>, \<open>stop\<close> and \<open>submit\<close>, steps of
  the fibers, and what the callers do besides: create an object, mutate an object in
  place (the object at an address is replaced by its new contents), give up awaiting a
  future (which cancels it). An event that cannot happen in a state (\<open>fire\<close> gives
  \<open>None\<close>) leaves it as it is.
\<close>

datatype event =
    EStart
  | EStop
  | ESubmit addr string rat
  | ERouterGet
  | ERouterPick
  | ECapacityWake
  | ECapacityTimeout
  | EWorkerGet string rat
  | EWorkerFinish string task_outcome rat
  | ECallerAlloc pyobj
  | ECallerWrite addr pyobj
  | ECallerCancel nat

fun fire :: "pylib \<Rightarrow> event \<Rightarrow> Dispatcher \<Rightarrow> Dispatcher option" where
  "fire lib EStart d = start d"
| "fire lib EStop d = Some (stop d)"
| "fire lib (ESubmit r u now) d =
     (case submit d r u now of Inl e \<Rightarrow> None | Inr (d', f) \<Rightarrow> Some d')"
| "fire lib ERouterGet d = router_get d"
| "fire lib ERouterPick d = router_pick d"
| "fire lib ECapacityWake d = router_capacity_wake d"
| "fire lib ECapacityTimeout d = router_capacity_timeout d"
| "fire lib (EWorkerGet aid now) d = worker_get d aid now"
| "fire lib (EWorkerFinish aid out now) d = worker_finish lib d aid out now"
| "fire lib (ECallerAlloc obj) d = Some (d\<lparr> heap := heap d @ [obj] \<rparr>)"
| "fire lib (ECallerWrite a obj) d =
     (if a < length (heap d) then Some (d\<lparr> heap := (heap d)[a := obj] \<rparr>) else None)"
| "fire lib (ECallerCancel f) d =
     (if f < length (futures d) \<and> futures d ! f = FPending
      then Some (d\<lparr> futures := (futures d)[f := FCancelled] \<rparr>) else None)"

definition step :: "pylib \<Rightarrow> event \<Rightarrow> Dispatcher \<Rightarrow> Dispatcher" where
  "step lib e d = (case fire lib e d of None \<Rightarrow> d | Some d' \<Rightarrow> d')"

definition run :: "pylib \<Rightarrow> event list \<Rightarrow> Dispatcher \<Rightarrow> Dispatcher" where
  "run lib evs d = fold (step lib) evs d"

section \<open>api.py\<close>

datatype response = HTTPException int string | JSONResponse json | Unhandled exn

text \<open>\<open>_anthropic_message_response\<close>; the first argument is \<open>uuid.uuid4().hex\<close>.\<close>

definition anthropic_message_response :: "string \<Rightarrow> string \<Rightarrow> string \<Rightarrow> json \<Rightarrow> json" where
  "anthropic_message_response uuid_hex model txt aid =
     JObj [(''id'', JStr (''msg_'' @ take 16 uuid_hex)),
           (''type'', JStr ''message''),
           (''role'', JStr ''assistant''),
           (''model'', JStr model),
           (''content'', JArr [JObj [(''type'', JStr ''text''), (''text'', JStr txt)]]),
           (''metadata'', if json_truthy aid then JObj [(''account_id'', aid)] else JObj [])]"

text \<open>The two \<open>except\<close> clauses around \<open>await dispatcher.submit(body)\<close>: an exception
  they do not catch leaves the handler.\<close>

definition submit_error_response :: "exn \<Rightarrow> response" where
  "submit_error_response e =
     (case e of
        RuntimeError msg \<Rightarrow> HTTPException 429 msg
      | TimeoutError \<Rightarrow> HTTPException 504 ''Task timed out''
      | _ \<Rightarrow> Unhandled e)"

text \<open>The handler after \<open>submit\<close> has returned \<open>result\<close>.\<close>

definition message_of_result :: "pylib \<Rightarrow> string \<Rightarrow> string \<Rightarrow> json \<Rightarrow> response" where
  "message_of_result lib uuid_hex model result =
     (case result of
        JObj kvs \<Rightarrow>
          if map_of kvs ''type'' = Some (JStr ''message'') then JSONResponse result
          else
            (let txt = (case map_of kvs ''content'' of
                          Some (JStr s) \<Rightarrow> s
                        | _ \<Rightarrow> (case map_of kvs ''raw'' of
                                  Some raw \<Rightarrow> py_str lib raw
                                | None \<Rightarrow> py_str lib result));
                 m = dict_get kvs ''metadata'' JNull
             in if \<not> json_truthy m then
                  JSONResponse (anthropic_message_response uuid_hex model txt
                                  (dict_get kvs ''account_id'' JNull))
                else
                  (case m of
                     JObj mkvs \<Rightarrow>
                       (let aid = dict_get mkvs ''account_id'' JNull in
                        JSONResponse (anthropic_message_response uuid_hex model txt
                          (if json_truthy aid then aid else dict_get kvs ''account_id'' JNull)))
                   | _ \<Rightarrow> Unhandled AttributeError))
      | _ \<Rightarrow> JSONResponse (anthropic_message_response uuid_hex model (py_str lib result) JNull))"

text \<open>\<open>v1_messages\<close>. \<open>ready\<close> says whether the dispatcher exists, \<open>body\<close> is what
  \<open>req.json()\<close> returned, and \<open>submitted\<close> is how \<open>await dispatcher.submit(body)\<close> ends: with
  the exception it raises or the result it returns. The status of an \<open>HTTPException\<close> is
  its first field; an exception that leaves the handler is answered by the framework
  with status 500.\<close>

definition v1_messages ::
    "pylib \<Rightarrow> bool \<Rightarrow> heap \<Rightarrow> pyval \<Rightarrow> string \<Rightarrow> exn + json \<Rightarrow> response" where
  "v1_messages lib ready hp body uuid_hex submitted =
     (if \<not> ready then HTTPException 503 ''Dispatcher not ready''
      else
        (case as_dict hp body of
           None \<Rightarrow> Unhandled AttributeError
         | Some b \<Rightarrow>
             (case dict_get b ''model'' PNone of
                PStr model \<Rightarrow>
                  if model = [] then HTTPException 400 ''model is required''
                  else
                    (case dict_get b ''messages'' PNone of
                       PRef a \<Rightarrow>
                         (case heap_get hp a of
                            Some (PList msgs) \<Rightarrow>
                              if msgs = [] then HTTPException 400 ''messages[] is required''
                              else
                                (case submitted of
                                   Inl e \<Rightarrow> submit_error_response e
                                 | Inr result \<Rightarrow> message_of_result lib uuid_hex model result)
                          | _ \<Rightarrow> HTTPException 400 ''messages[] is required'')
                     | _ \<Rightarrow> HTTPException 400 ''messages[] is required'')
              | _ \<Rightarrow> HTTPException 400 ''model is required'')))"

definition status_code :: "response \<Rightarrow> int" where
  "status_code r =
     (case r of HTTPException code msg \<Rightarrow> code | JSONResponse j \<Rightarrow> 200 | Unhandled e \<Rightarrow> 500)"

text \<open>What a caller awaiting a future gets once it is done.\<close>

definition awaited :: "fut \<Rightarrow> (exn + json) option" where
  "awaited f =
     (case f of
        FResult r \<Rightarrow> Some (Inr r)
      | FException e \<Rightarrow> Some (Inl e)
      | _ \<Rightarrow> None)"

section \<open>Example fleets and executions\<close>

text \<open>A library instance for the examples: every byte string decodes to itself,
  \<open>{}\<close> is the one JSON text, and \<open>~\<close> expands to the home directory \<open>/home/u\<close> of the
  one user there is.\<close>

definition example_lib :: pylib where
  "example_lib =
     \<lparr> decode_utf8 = Some,
       decode_utf8_replace = (\<lambda>s. s),
       json_loads = (\<lambda>s. if s = ''{}'' then Some (JObj []) else None),
       py_repr = (\<lambda>j. ''...''),
       py_list = (\<lambda>j. Inl TypeError),
       py_int = (\<lambda>j. Inl TypeError),
       expanduser = (\<lambda>p. if p = ''~'' \<or> take 2 p = ''~/'' then ''/home/u'' @ drop 1 p else p) \<rparr>"


text \<open>The defaults of the dataclass \<open>DispatcherConfig\<close>.\<close>

definition DispatcherConfig_default :: DispatcherConfig where
  "DispatcherConfig_default =
     \<lparr> routing = ''round-robin'', global_queue_size = 200, per_account_queue_size = 50,
       task_timeout_seconds = 600, health_check_interval_seconds = 10 \<rparr>"

text \<open>The session handle \<open>SessionManager.start_all\<close> builds for an account with a task
  command and the given \<open>maxConcurrency\<close>.\<close>

definition session_for :: "string \<Rightarrow> int \<Rightarrow> string \<times> SessionHandle" where
  "session_for aid n =
     (aid, \<lparr> account_id = aid,
             session = \<lparr> id' = aid, state_dir = ''/state/'' @ aid, start_command = None,
                         health_command = None, task_command = Some [JStr ''agent''],
                         env = [(''AG_CONFIG_DIR'', ''/state/'' @ aid)],
                         cfg_max_concurrency = n \<rparr>,
             max_concurrency = n \<rparr>)"

text \<open>A heap holding one request body at address 0, without \<open>metadata\<close>.\<close>

definition plain_heap :: heap where
  "plain_heap = [PDict [(''model'', PStr ''m''), (''messages'', PRef 1)], PList [PStr ''hi'']]"

text \<open>A heap holding one request body at address 0 whose \<open>metadata.routing.strategyHint\<close>
  is the given value (objects 2 and 3 are \<open>metadata\<close> and \<open>routing\<close>).\<close>

definition hinted_heap :: "pyval \<Rightarrow> heap" where
  "hinted_heap hint =
     [PDict [(''model'', PStr ''m''), (''messages'', PRef 1), (''metadata'', PRef 2)],
      PList [PStr ''hi''],
      PDict [(''routing'', PRef 3)],
      PDict [(''strategyHint'', hint)]]"

definition exited :: "int \<Rightarrow> string \<Rightarrow> string \<Rightarrow> task_outcome" where
  "exited rc out err = Exited (Inr \<lparr> returncode = rc, stdout = out, stderr = err \<rparr>)"

text \<open>A dispatcher with the given routing over the given fleet, as \<open>api.py\<close> creates it.\<close>

definition example_dispatcher ::
    "string \<Rightarrow> (string \<times> SessionHandle) list \<Rightarrow> heap \<Rightarrow> Dispatcher" where
  "example_dispatcher rt sessions hp =
     (case Dispatcher_init (DispatcherConfig_default\<lparr> routing := rt \<rparr>) sessions hp of
        Inr d \<Rightarrow> d
      | Inl e \<Rightarrow> undefined)"

definition example_uuid :: string where
  "example_uuid = ''0123456789abcdef0123456789abcdef''"

text \<open>One request from submission to the start of its task, on a fleet with the accounts
  \<open>a\<close> and \<open>b\<close>: the caller submits the body at address 0, the router takes the item and
  places it, and the worker that received it starts the task.\<close>

definition dispatched :: "event list" where
  "dispatched =
     [ESubmit 0 example_uuid 1, ERouterGet, ERouterPick, EWorkerGet ''a'' 2, EWorkerGet ''b'' 2]"

text \<open>One request served from submission to completion: the task ends as given.\<close>

definition served :: "task_outcome \<Rightarrow> event list" where
  "served out = dispatched @ [EWorkerFinish ''a'' out 3, EWorkerFinish ''b'' out 3]"

section \<open>Properties of the session\<close>

text \<open>
  Claim C4. For every \<open>run_task\<close> with a configured task command whose child was spawned:
  when the child exits with status 0 and its output decodes and parses as JSON, the
  result is that JSON value; when it exits with status 0 and the output does not decode
  or does not parse, the result is \<open>{"raw": <stdout as text>}\<close>; when it exits with another
  status, \<open>run_task\<close> raises an error whose message holds the account id, the exit code
  and the text of stderr.
\<close>

theorem run_task_outcomes:
  assumes "task_command c = Some cmd" and "cmd \<noteq> []"
  shows "(returncode p = 0 \<and> decode_utf8 lib (stdout p) = Some s \<and> json_loads lib s = Some j
            \<longrightarrow> run_task lib c (Inr p) = Inr j)
       \<and> (returncode p = 0 \<and> (\<forall>s. decode_utf8 lib (stdout p) = Some s \<longrightarrow> json_loads lib s = None)
            \<longrightarrow> run_task lib c (Inr p) =
                  Inr (JObj [(''raw'', JStr (decode_utf8_replace lib (stdout p)))]))
       \<and> (returncode p \<noteq> 0
            \<longrightarrow> run_task lib c (Inr p) =
                  Inl (RuntimeError (''taskCommand failed for '' @ id' c @ '' rc='' @
                         str_int (returncode p) @ '': '' @ decode_utf8_replace lib (stderr p))))"
  using assms by (auto simp: run_task_def split: option.splits)

theorem run_task_outcomes_witness:
  "run_task example_lib (session (snd (session_for ''a'' 1)))
      (Inr \<lparr> returncode = 0, stdout = ''{}'', stderr = [] \<rparr>) = Inr (JObj [])
   \<and> run_task example_lib (session (snd (session_for ''a'' 1)))
      (Inr \<lparr> returncode = 0, stdout = ''done'', stderr = [] \<rparr>) = Inr (JObj [(''raw'', JStr ''done'')])
   \<and> run_task example_lib (session (snd (session_for ''a'' 1)))
      (Inr \<lparr> returncode = 2, stdout = [], stderr = ''boom'' \<rparr>) =
        Inl (RuntimeError ''taskCommand failed for a rc=2: boom'')"
  using run_task_outcomes [of "session (snd (session_for ''a'' 1))" "[JStr ''agent'']"
          "\<lparr> returncode = 0, stdout = ''{}'', stderr = [] \<rparr>" example_lib "''{}''" "JObj []"]
        run_task_outcomes [of "session (snd (session_for ''a'' 1))" "[JStr ''agent'']"
          "\<lparr> returncode = 0, stdout = ''done'', stderr = [] \<rparr>" example_lib]
        run_task_outcomes [of "session (snd (session_for ''a'' 1))" "[JStr ''agent'']"
          "\<lparr> returncode = 2, stdout = [], stderr = ''boom'' \<rparr>" example_lib]
  by (simp add: example_lib_def session_for_def str_int_def digit_char_def)

text \<open>
  Claim C9 says that every spawned command sees \<open>AG_CONFIG_DIR\<close> equal to the account's
  \<open>state_dir\<close> with \<open>~\<close> expanded unless the account's \<open>env\<close> sets it. For an account loaded
  from \<open>{"id": "a", "stateDir": "~/agent"}\<close>, \<open>load_config\<close> stores the expanded path in
  \<open>state_dir\<close> but has already put the unexpanded one into \<open>env\<close>, which then wins in
  \<open>_env\<close>: the command is given \<open>AG_CONFIG_DIR=~/agent\<close>.
\<close>

theorem env_config_dir_not_expanded:
  "\<exists>c. load_account example_lib (JObj [(''id'', JStr ''a''), (''stateDir'', JStr ''~/agent'')]) = Inr c
      \<and> state_dir c = ''/home/u/agent''
      \<and> map_of (SubprocessSession_env [(''HOME'', ''/home/u'')] c) ''AG_CONFIG_DIR'' = Some ''~/agent''"
  by (simp add: load_account_def env_of_def command_of_def int_of_def py_str_def dict_get_def
        dict_setdefault_def dict_update_def SubprocessSession_env_def strip_def whitespace_def
        example_lib_def)

section \<open>Properties of the dispatcher\<close>

subsection \<open>What the operations leave unchanged\<close>

lemma pick_account_state:
  assumes "pick_account d hint = Inr (r, d1)"
  shows "\<exists>c. d1 = d\<lparr> rr_cursor := c \<rparr>"
proof (cases "strategy_of d hint")
  case (Inl e)
  with assms show ?thesis by (simp add: pick_account_def Let_def)
next
  case (Inr s)
  have same: "d = d\<lparr> rr_cursor := rr_cursor d \<rparr>" by simp
  show ?thesis
  proof (cases "usable_accounts d = []")
    case True
    with assms Inr have "d1 = d" by (simp add: pick_account_def Let_def)
    with same show ?thesis by metis
  next
    case False
    show ?thesis
    proof (cases "s \<in> set [''lru'', ''least-recently-used'', ''least_recently_used'']")
      case True
      with assms Inr False have "d1 = d" by (simp add: pick_account_def Let_def)
      with same show ?thesis by metis
    next
      case nl: False
      show ?thesis
      proof (cases "s \<in> set [''health'', ''health-score'', ''health_score'']")
        case True
        with assms Inr False nl have "d1 = d" by (simp add: pick_account_def Let_def)
        with same show ?thesis by metis
      next
        case nh: False
        with assms Inr False nl show ?thesis
          by (simp add: pick_account_def Let_def) blast
      qed
    qed
  qed
qed

lemma fold_cancel_worker_futures:
  "futures (fold cancel_worker ws d) = futures d"
  by (induction ws arbitrary: d) (auto simp: cancel_worker_def split: worker_state.splits)

lemma fold_cancel_worker_heap:
  "heap (fold cancel_worker ws d) = heap d"
  by (induction ws arbitrary: d) (auto simp: cancel_worker_def split: worker_state.splits)

lemma fulfil_done:
  "f < length fs \<Longrightarrow> fs ! f \<noteq> FPending \<Longrightarrow>
     f < length (fulfil g v fs) \<and> fulfil g v fs ! f = fs ! f"
  by (auto simp: fulfil_def nth_list_update)

lemma router_pick_frame:
  assumes "router_pick d = Some d'"
  shows "futures d' = futures d \<and> heap d' = heap d"
proof -
  from assms obtain item hint where rt: "router_task d = Some (RPick item hint)"
    by (auto simp: router_pick_def split: option.splits router_state.splits)
  show ?thesis
  proof (cases "stop_event d")
    case True
    with assms rt show ?thesis by (auto simp: router_pick_def)
  next
    case False
    show ?thesis
    proof (cases "pick_account d hint")
      case (Inl e)
      with assms rt False show ?thesis by (auto simp: router_pick_def)
    next
      case (Inr pr)
      obtain r d1 where pr: "pr = (r, d1)" by (cases pr)
      with Inr obtain c where d1: "d1 = d\<lparr> rr_cursor := c \<rparr>"
        using pick_account_state by blast
      from assms rt False Inr pr d1 show ?thesis
        by (auto simp: router_pick_def split: option.splits if_splits)
    qed
  qed
qed

subsection \<open>Result slots\<close>

lemma step_future_done:
  assumes "f < length (futures d)" and "futures d ! f \<noteq> FPending"
  shows "f < length (futures (step lib e d)) \<and> futures (step lib e d) ! f = futures d ! f"
proof (cases e)
  case EStart
  then show ?thesis by (simp add: step_def start_def assms)
next
  case EStop
  then show ?thesis by (simp add: step_def stop_def fold_cancel_worker_futures assms)
next
  case (ESubmit r u now)
  then show ?thesis using assms
    by (auto simp: step_def submit_def Let_def nth_append split: option.splits pyobj.splits)
next
  case ERouterGet
  then show ?thesis using assms
    by (auto simp: step_def router_get_def split: option.splits router_state.splits list.splits)
next
  case ERouterPick
  then show ?thesis using assms
    by (cases "router_pick d") (auto simp: step_def dest: router_pick_frame)
next
  case ECapacityWake
  then show ?thesis using assms
    by (auto simp: step_def router_capacity_wake_def split: option.splits router_state.splits)
next
  case ECapacityTimeout
  then show ?thesis using assms
    by (auto simp: step_def router_capacity_timeout_def split: option.splits router_state.splits)
next
  case (EWorkerGet aid now)
  then show ?thesis using assms
    by (auto simp: step_def worker_get_def split: option.splits worker_state.splits list.splits)
next
  case (EWorkerFinish aid out now)
  then show ?thesis using assms
    by (auto simp: step_def worker_finish_def fulfil_done Let_def
        split: option.splits worker_state.splits sum.splits prod.splits)
next
  case (ECallerAlloc obj)
  then show ?thesis using assms by (simp add: step_def)
next
  case (ECallerWrite a obj)
  then show ?thesis using assms by (simp add: step_def)
next
  case (ECallerCancel g)
  then show ?thesis using assms by (auto simp: step_def nth_list_update)
qed

lemma run_future_done:
  assumes "f < length (futures d)" and "futures d ! f \<noteq> FPending"
  shows "f < length (futures (run lib evs d)) \<and> futures (run lib evs d) ! f = futures d ! f"
  using assms
proof (induction evs arbitrary: d)
  case Nil
  then show ?case by (simp add: run_def)
next
  case (Cons e evs)
  have s: "f < length (futures (step lib e d)) \<and> futures (step lib e d) ! f = futures d ! f"
    using step_future_done [OF Cons.prems] .
  then have "f < length (futures (run lib evs (step lib e d)))
      \<and> futures (run lib evs (step lib e d)) ! f = futures (step lib e d) ! f"
    using Cons.IH [of "step lib e d"] Cons.prems by simp
  with s show ?case by (simp add: run_def)
qed

lemma step_future_pending:
  assumes "f < length (futures d)" and "futures d ! f = FPending"
    and "futures (step lib e d) ! f \<noteq> FPending"
  shows "(e = ECallerCancel f \<and> futures (step lib e d) ! f = FCancelled)
       \<or> (\<exists>aid out now item t0 acc.
             e = EWorkerFinish aid out now \<and> map_of (workers d) aid = Some (WRun item t0)
           \<and> future item = f \<and> map_of (accounts d) aid = Some acc
           \<and> futures (step lib e d) ! f =
               (case task_result lib acc out of
                  Inl x \<Rightarrow> FException x
                | Inr r \<Rightarrow> (case inject_account_id (account_id (handle acc)) r of
                             Inl x \<Rightarrow> FException x
                           | Inr r' \<Rightarrow> FResult r')))"
proof (cases e)
  case EStart
  with assms show ?thesis by (auto simp: step_def start_def split: if_splits)
next
  case EStop
  with assms show ?thesis by (simp add: step_def stop_def fold_cancel_worker_futures)
next
  case (ESubmit r u now)
  with assms show ?thesis
    by (auto simp: step_def submit_def Let_def nth_append split: option.splits pyobj.splits if_splits)
next
  case ERouterGet
  with assms show ?thesis
    by (auto simp: step_def router_get_def split: option.splits router_state.splits list.splits)
next
  case ERouterPick
  with assms show ?thesis
    by (cases "router_pick d") (auto simp: step_def dest: router_pick_frame)
next
  case ECapacityWake
  with assms show ?thesis
    by (auto simp: step_def router_capacity_wake_def split: option.splits router_state.splits if_splits)
next
  case ECapacityTimeout
  with assms show ?thesis
    by (auto simp: step_def router_capacity_timeout_def split: option.splits router_state.splits if_splits)
next
  case (EWorkerGet aid now)
  with assms show ?thesis
    by (auto simp: step_def worker_get_def split: option.splits worker_state.splits list.splits if_splits)
next
  case (EWorkerFinish aid out now)
  with assms show ?thesis
    by (auto simp: step_def worker_finish_def fulfil_def Let_def nth_list_update
        split: option.splits worker_state.splits sum.splits prod.splits if_splits)
next
  case (ECallerAlloc obj)
  with assms show ?thesis by (simp add: step_def)
next
  case (ECallerWrite a obj)
  with assms show ?thesis by (auto simp: step_def split: if_splits)
next
  case (ECallerCancel g)
  with assms show ?thesis by (auto simp: step_def nth_list_update split: if_splits)
qed

lemma submit_future:
  assumes "submit d r u now = Inr (d1, g)"
  shows "g = length (futures d) \<and> futures d1 = futures d @ [FPending]
       \<and> (\<exists>item. global_queue d1 = global_queue d @ [item] \<and> future item = g)"
  using assms by (auto simp: submit_def Let_def split: if_splits option.splits pyobj.splits)

lemma inject_account_id_new:
  assumes "map_of kvs ''metadata'' = None"
  shows "inject_account_id a (JObj kvs) =
           Inr (JObj (kvs @ [(''metadata'', JObj [(''account_id'', JStr a)])]))"
proof -
  have "AList.update k v (xs @ [(k, w)]) = xs @ [(k, v)]" if "map_of xs k = None"
    for k :: string and v w :: json and xs
    using that by (induction xs) (auto split: if_splits)
  with assms show ?thesis
    by (simp add: inject_account_id_def dict_setdefault_def dict_get_def Let_def map_add_def)
qed

lemma inject_account_id_merge:
  assumes "map_of kvs ''metadata'' = Some (JObj m)"
  shows "inject_account_id a (JObj kvs) =
           Inr (JObj (AList.update ''metadata''
                        (JObj (AList.update ''account_id'' (JStr a) m)) kvs))"
  using assms
  by (cases m) (simp_all add: inject_account_id_def dict_setdefault_def dict_get_def Let_def)

text \<open>
  Claim C1, as amended. For every task accepted by \<open>Dispatcher.submit\<close> the result slot
  is created pending, the queued item holding its index, and is fulfilled exactly once
  when the worker running the task finishes it. When the worker of a task whose slot is pending
  finishes, the slot holds from then on, along every execution, the session's result with
  the account id merged into \<open>metadata\<close> when the task succeeded, and the error when the
  task failed: the error \<open>run_task\<close> raised, \<open>TimeoutError\<close> when the timeout passed, or
  the error the merge raised. A slot that is no longer pending keeps its value along
  every execution. A pending slot leaves that state in one step only by such a worker or
  when its caller gives up awaiting it (it is then cancelled). \<open>Dispatcher.stop\<close> changes
  no slot.
\<close>

theorem result_slot_fulfilled_once:
  assumes "f < length (futures d)"
  shows "(futures d ! f \<noteq> FPending \<longrightarrow> futures (run lib evs d) ! f = futures d ! f)
       \<and> (futures d ! f = FPending \<and> map_of (workers d) aid = Some (WRun item t0)
            \<and> future item = f \<and> map_of (accounts d) aid = Some acc \<longrightarrow>
            futures (run lib evs (step lib (EWorkerFinish aid out now) d)) ! f =
              (case task_result lib acc out of
                 Inl x \<Rightarrow> FException x
               | Inr r \<Rightarrow> (case inject_account_id (account_id (handle acc)) r of
                            Inl x \<Rightarrow> FException x
                          | Inr r' \<Rightarrow> FResult r')))
       \<and> (futures d ! f = FPending \<and> futures (step lib e d) ! f \<noteq> FPending \<longrightarrow>
            (e = ECallerCancel f \<and> futures (step lib e d) ! f = FCancelled)
          \<or> (\<exists>aid out now item t0 acc.
                e = EWorkerFinish aid out now \<and> map_of (workers d) aid = Some (WRun item t0)
              \<and> future item = f \<and> map_of (accounts d) aid = Some acc
              \<and> futures (step lib e d) ! f =
                  (case task_result lib acc out of
                     Inl x \<Rightarrow> FException x
                   | Inr r \<Rightarrow> (case inject_account_id (account_id (handle acc)) r of
                                Inl x \<Rightarrow> FException x
                              | Inr r' \<Rightarrow> FResult r'))))
       \<and> futures (step lib EStop d) ! f = futures d ! f
       \<and> (\<forall>r u now d1 g. submit d r u now = Inr (d1, g) \<longrightarrow>
             g = length (futures d) \<and> futures d1 = futures d @ [FPending]
           \<and> (\<exists>item. global_queue d1 = global_queue d @ [item] \<and> future item = g))
       \<and> task_result lib acc TimedOut = Inl TimeoutError
       \<and> task_result lib acc (Exited spawned) = run_task lib (session (handle acc)) spawned
       \<and> (map_of kvs ''metadata'' = None \<longrightarrow>
            inject_account_id a (JObj kvs) =
              Inr (JObj (kvs @ [(''metadata'', JObj [(''account_id'', JStr a)])])))
       \<and> (map_of kvs ''metadata'' = Some (JObj m) \<longrightarrow>
            inject_account_id a (JObj kvs) =
              Inr (JObj (AList.update ''metadata''
                           (JObj (AList.update ''account_id'' (JStr a) m)) kvs)))"
proof (intro conjI impI allI)
  assume "futures d ! f \<noteq> FPending"
  with assms show "futures (run lib evs d) ! f = futures d ! f"
    using run_future_done by blast
next
  let ?v = "case task_result lib acc out of
              Inl x \<Rightarrow> FException x
            | Inr r \<Rightarrow> (case inject_account_id (account_id (handle acc)) r of
                         Inl x \<Rightarrow> FException x
                       | Inr r' \<Rightarrow> FResult r')"
  let ?d = "step lib (EWorkerFinish aid out now) d"
  assume "futures d ! f = FPending \<and> map_of (workers d) aid = Some (WRun item t0)
            \<and> future item = f \<and> map_of (accounts d) aid = Some acc"
  with assms have len: "f < length (futures ?d)" and v: "futures ?d ! f = ?v"
    by (auto simp: step_def worker_finish_def fulfil_def Let_def split: sum.splits)
  have "?v \<noteq> FPending" by (simp split: sum.splits)
  with v have "futures ?d ! f \<noteq> FPending" by simp
  from run_future_done [OF len this, of lib evs] v
  show "futures (run lib evs ?d) ! f = ?v" by simp
next
  assume "futures d ! f = FPending \<and> futures (step lib e d) ! f \<noteq> FPending"
  with assms show "(e = ECallerCancel f \<and> futures (step lib e d) ! f = FCancelled)
       \<or> (\<exists>aid out now item t0 acc.
             e = EWorkerFinish aid out now \<and> map_of (workers d) aid = Some (WRun item t0)
           \<and> future item = f \<and> map_of (accounts d) aid = Some acc
           \<and> futures (step lib e d) ! f =
               (case task_result lib acc out of
                  Inl x \<Rightarrow> FException x
                | Inr r \<Rightarrow> (case inject_account_id (account_id (handle acc)) r of
                             Inl x \<Rightarrow> FException x
                           | Inr r' \<Rightarrow> FResult r')))"
    using step_future_pending by blast
next
  show "futures (step lib EStop d) ! f = futures d ! f"
    by (simp add: step_def stop_def fold_cancel_worker_futures)
next
  fix r u now d1 g
  assume "submit d r u now = Inr (d1, g)"
  then show "g = length (futures d)" and "futures d1 = futures d @ [FPending]"
    and "\<exists>item. global_queue d1 = global_queue d @ [item] \<and> future item = g"
    using submit_future by blast+
next
  show "task_result lib acc TimedOut = Inl TimeoutError" by (simp add: task_result_def)
next
  show "task_result lib acc (Exited spawned) = run_task lib (session (handle acc)) spawned"
    by (simp add: task_result_def)
next
  assume "map_of kvs ''metadata'' = None"
  then show "inject_account_id a (JObj kvs) =
      Inr (JObj (kvs @ [(''metadata'', JObj [(''account_id'', JStr a)])]))"
    by (rule inject_account_id_new)
next
  assume "map_of kvs ''metadata'' = Some (JObj m)"
  then show "inject_account_id a (JObj kvs) =
      Inr (JObj (AList.update ''metadata''
                   (JObj (AList.update ''account_id'' (JStr a) m)) kvs))"
    by (rule inject_account_id_merge)
qed

theorem result_slot_fulfilled_once_witness:
  "0 < length (futures (run example_lib (EStart # served (exited 0 ''{}'' []))
         (example_dispatcher ''round-robin'' [session_for ''a'' 1] plain_heap)))
   \<and> futures (run example_lib (EStart # served (exited 0 ''{}'' []))
         (example_dispatcher ''round-robin'' [session_for ''a'' 1] plain_heap)) ! 0
       \<noteq> FPending
   \<and> futures (run example_lib [ECallerCancel 0, EStop, EStart]
         (run example_lib (EStart # served (exited 0 ''{}'' []))
           (example_dispatcher ''round-robin'' [session_for ''a'' 1] plain_heap))) ! 0
       = futures (run example_lib (EStart # served (exited 0 ''{}'' []))
           (example_dispatcher ''round-robin'' [session_for ''a'' 1] plain_heap)) ! 0
   \<and> futures (run example_lib (EStart # dispatched)
         (example_dispatcher ''round-robin'' [session_for ''a'' 1] plain_heap)) ! 0 = FPending
   \<and> map_of (workers (run example_lib (EStart # dispatched)
         (example_dispatcher ''round-robin'' [session_for ''a'' 1] plain_heap))) ''a''
       = Some (WRun \<lparr> request = 2, future = 0, created_ts = 1, task_id = ''task_0123456789ab'' \<rparr> 2)
   \<and> futures (run example_lib [ECallerCancel 0, EStop, EStart]
         (step example_lib (EWorkerFinish ''a'' (exited 0 ''{}'' []) 3)
           (run example_lib (EStart # dispatched)
             (example_dispatcher ''round-robin'' [session_for ''a'' 1] plain_heap)))) ! 0
       = FResult (JObj [(''metadata'', JObj [(''account_id'', JStr ''a'')])])
   \<and> futures (run example_lib [ECallerCancel 0, EStop, EStart]
         (step example_lib (EWorkerFinish ''a'' (exited 1 [] ''boom'') 3)
           (run example_lib (EStart # dispatched)
             (example_dispatcher ''round-robin'' [session_for ''a'' 1] plain_heap)))) ! 0
       = FException (RuntimeError ''taskCommand failed for a rc=1: boom'')
   \<and> futures (run example_lib [ECallerCancel 0, EStop, EStart]
         (step example_lib (EWorkerFinish ''a'' TimedOut 3)
           (run example_lib (EStart # dispatched)
             (example_dispatcher ''round-robin'' [session_for ''a'' 1] plain_heap)))) ! 0
       = FException TimeoutError
   \<and> (\<exists>item t0 acc.
         map_of (workers (run example_lib (EStart # dispatched)
            (example_dispatcher ''round-robin'' [session_for ''a'' 1] plain_heap))) ''a''
           = Some (WRun item t0)
       \<and> future item = 0
       \<and> map_of (accounts (run example_lib (EStart # dispatched)
            (example_dispatcher ''round-robin'' [session_for ''a'' 1] plain_heap))) ''a'' = Some acc
       \<and> FResult (JObj [(''metadata'', JObj [(''account_id'', JStr ''a'')])])
           = (case task_result example_lib acc (exited 0 ''{}'' []) of
                Inl x \<Rightarrow> FException x
              | Inr r \<Rightarrow> (case inject_account_id (account_id (handle acc)) r of
                           Inl x \<Rightarrow> FException x
                         | Inr r' \<Rightarrow> FResult r')))
   \<and> submit (run example_lib (EStart # served (exited 0 ''{}'' []))
         (example_dispatcher ''round-robin'' [session_for ''a'' 1] plain_heap)) 0 example_uuid 4
       = Inr (step example_lib (ESubmit 0 example_uuid 4)
               (run example_lib (EStart # served (exited 0 ''{}'' []))
                 (example_dispatcher ''round-robin'' [session_for ''a'' 1] plain_heap)), 1)
   \<and> futures (step example_lib (ESubmit 0 example_uuid 4)
         (run example_lib (EStart # served (exited 0 ''{}'' []))
           (example_dispatcher ''round-robin'' [session_for ''a'' 1] plain_heap)))
       = futures (run example_lib (EStart # served (exited 0 ''{}'' []))
           (example_dispatcher ''round-robin'' [session_for ''a'' 1] plain_heap)) @ [FPending]
   \<and> inject_account_id ''a'' (JObj [(''content'', JStr ''ok'')])
       = Inr (JObj [(''content'', JStr ''ok''), (''metadata'', JObj [(''account_id'', JStr ''a'')])])
   \<and> inject_account_id ''a'' (JObj [(''metadata'', JObj [(''trace'', JInt 7)])])
       = Inr (JObj [(''metadata'', JObj [(''trace'', JInt 7), (''account_id'', JStr ''a'')])])"
proof -
  let ?init = "example_dispatcher ''round-robin'' [session_for ''a'' 1] plain_heap"
  let ?d = "run example_lib (EStart # served (exited 0 ''{}'' [])) ?init"
  let ?r = "run example_lib (EStart # dispatched) ?init"
  let ?e = "EWorkerFinish ''a'' (exited 0 ''{}'' []) 3"
  let ?later = "[ECallerCancel 0, EStop, EStart]"
  let ?item = "\<lparr> request = 2, future = 0, created_ts = 1, task_id = ''task_0123456789ab'' \<rparr>"
  let ?res = "FResult (JObj [(''metadata'', JObj [(''account_id'', JStr ''a'')])])"
  have len: "0 < length (futures ?d)" by code_simp
  have fulfilled: "futures ?d ! 0 \<noteq> FPending" by code_simp
  from result_slot_fulfilled_once [OF len, where lib = example_lib and evs = ?later,
      THEN conjunct1] fulfilled
  have kept: "futures (run example_lib ?later ?d) ! 0 = futures ?d ! 0"
    by blast
  have lenr: "0 < length (futures ?r)" by code_simp
  have pending: "futures ?r ! 0 = FPending" by code_simp
  have worker: "map_of (workers ?r) ''a'' = Some (WRun ?item 2)" by code_simp
  have fut: "future ?item = 0" by simp
  have "map_of (accounts ?r) ''a'' \<noteq> None" by code_simp
  then obtain acc where acc: "map_of (accounts ?r) ''a'' = Some acc" by blast
  then have the_acc: "the (map_of (accounts ?r) ''a'') = acc" by simp
  have "case task_result example_lib (the (map_of (accounts ?r) ''a'')) (exited 0 ''{}'' []) of
          Inl x \<Rightarrow> False
        | Inr r \<Rightarrow> inject_account_id
                     (account_id (handle (the (map_of (accounts ?r) ''a'')))) r
                   = Inr (JObj [(''metadata'', JObj [(''account_id'', JStr ''a'')])])"
    by code_simp
  with the_acc have v_ok: "(case task_result example_lib acc (exited 0 ''{}'' []) of
             Inl x \<Rightarrow> FException x
           | Inr r \<Rightarrow> (case inject_account_id (account_id (handle acc)) r of
                        Inl x \<Rightarrow> FException x
                      | Inr r' \<Rightarrow> FResult r')) = ?res"
    by (auto split: sum.splits)
  have "task_result example_lib (the (map_of (accounts ?r) ''a'')) (exited 1 [] ''boom'')
      = Inl (RuntimeError ''taskCommand failed for a rc=1: boom'')"
    by code_simp
  with the_acc have v_fail: "(case task_result example_lib acc (exited 1 [] ''boom'') of
             Inl x \<Rightarrow> FException x
           | Inr r \<Rightarrow> (case inject_account_id (account_id (handle acc)) r of
                        Inl x \<Rightarrow> FException x
                      | Inr r' \<Rightarrow> FResult r'))
        = FException (RuntimeError ''taskCommand failed for a rc=1: boom'')"
    by simp
  from result_slot_fulfilled_once [OF lenr, where lib = example_lib and acc = acc,
      THEN conjunct2, THEN conjunct2, THEN conjunct2, THEN conjunct2, THEN conjunct2, THEN conjunct1]
  have timeout: "task_result example_lib acc TimedOut = Inl TimeoutError" .
  from result_slot_fulfilled_once [OF lenr, where lib = example_lib and evs = ?later
      and aid = "''a''" and item = ?item and ?t0.0 = 2 and acc = acc
      and out = "exited 0 ''{}'' []" and now = 3,
      THEN conjunct2, THEN conjunct1] pending worker fut acc v_ok
  have ok: "futures (run example_lib ?later (step example_lib ?e ?r)) ! 0 = ?res"
    by simp
  from result_slot_fulfilled_once [OF lenr, where lib = example_lib and evs = ?later
      and aid = "''a''" and item = ?item and ?t0.0 = 2 and acc = acc
      and out = "exited 1 [] ''boom''" and now = 3,
      THEN conjunct2, THEN conjunct1] pending worker fut acc v_fail
  have failed: "futures (run example_lib ?later
        (step example_lib (EWorkerFinish ''a'' (exited 1 [] ''boom'') 3) ?r)) ! 0
      = FException (RuntimeError ''taskCommand failed for a rc=1: boom'')"
    by simp
  from result_slot_fulfilled_once [OF lenr, where lib = example_lib and evs = ?later
      and aid = "''a''" and item = ?item and ?t0.0 = 2 and acc = acc
      and out = TimedOut and now = 3,
      THEN conjunct2, THEN conjunct1] pending worker fut acc timeout
  have timed: "futures (run example_lib ?later
        (step example_lib (EWorkerFinish ''a'' TimedOut 3) ?r)) ! 0 = FException TimeoutError"
    by simp
  have after: "futures (step example_lib ?e ?r) ! 0 = ?res" by code_simp
  then have changed: "futures (step example_lib ?e ?r) ! 0 \<noteq> FPending" by simp
  have notcancel: "?e \<noteq> ECallerCancel 0" by simp
  from result_slot_fulfilled_once [OF lenr, where lib = example_lib and e = ?e,
      THEN conjunct2, THEN conjunct2, THEN conjunct1] pending changed notcancel
  obtain aid out now item t0 acc' where
    e: "?e = EWorkerFinish aid out now" and
    w: "map_of (workers ?r) aid = Some (WRun item t0)" and
    f: "future item = 0" and
    a: "map_of (accounts ?r) aid = Some acc'" and
    v: "futures (step example_lib ?e ?r) ! 0 =
          (case task_result example_lib acc' out of
             Inl x \<Rightarrow> FException x
           | Inr r \<Rightarrow> (case inject_account_id (account_id (handle acc')) r of
                        Inl x \<Rightarrow> FException x
                      | Inr r' \<Rightarrow> FResult r'))"
    by blast
  from e have aid: "aid = ''a''" and out: "out = exited 0 ''{}'' []" by simp_all
  from w f a v after aid out
  have who: "\<exists>item t0 acc.
         map_of (workers ?r) ''a'' = Some (WRun item t0)
       \<and> future item = 0
       \<and> map_of (accounts ?r) ''a'' = Some acc
       \<and> ?res = (case task_result example_lib acc (exited 0 ''{}'' []) of
                Inl x \<Rightarrow> FException x
              | Inr r \<Rightarrow> (case inject_account_id (account_id (handle acc)) r of
                           Inl x \<Rightarrow> FException x
                         | Inr r' \<Rightarrow> FResult r'))"
    by auto
  have enabled: "fire example_lib (ESubmit 0 example_uuid 4) ?d \<noteq> None" by code_simp
  then obtain d1 g where sub: "submit ?d 0 example_uuid 4 = Inr (d1, g)"
    by (auto split: sum.splits)
  then have d1: "step example_lib (ESubmit 0 example_uuid 4) ?d = d1" by (simp add: step_def)
  from result_slot_fulfilled_once [OF len, THEN conjunct2, THEN conjunct2, THEN conjunct2, THEN conjunct2, THEN conjunct1] sub
  have g: "g = length (futures ?d)" and fs: "futures d1 = futures ?d @ [FPending]"
    by blast+
  have "length (futures ?d) = 1" by code_simp
  with g have g1: "g = 1" by simp
  from sub d1 g1 have sub': "submit ?d 0 example_uuid 4
      = Inr (step example_lib (ESubmit 0 example_uuid 4) ?d, 1)" by simp
  from fs d1 have fs': "futures (step example_lib (ESubmit 0 example_uuid 4) ?d)
      = futures ?d @ [FPending]" by simp
  from result_slot_fulfilled_once [OF lenr, where kvs = "[(''content'', JStr ''ok'')]"
      and a = "''a''", THEN conjunct2, THEN conjunct2, THEN conjunct2, THEN conjunct2, THEN conjunct2, THEN conjunct2, THEN conjunct2, THEN conjunct1]
  have new: "inject_account_id ''a'' (JObj [(''content'', JStr ''ok'')])
       = Inr (JObj [(''content'', JStr ''ok''), (''metadata'', JObj [(''account_id'', JStr ''a'')])])"
    by simp
  from result_slot_fulfilled_once [OF lenr,
      where kvs = "[(''metadata'', JObj [(''trace'', JInt 7)])]" and a = "''a''"
        and m = "[(''trace'', JInt 7)]", THEN conjunct2, THEN conjunct2, THEN conjunct2, THEN conjunct2, THEN conjunct2, THEN conjunct2, THEN conjunct2, THEN conjunct2]
  have merge: "inject_account_id ''a'' (JObj [(''metadata'', JObj [(''trace'', JInt 7)])])
       = Inr (JObj [(''metadata'', JObj [(''trace'', JInt 7), (''account_id'', JStr ''a'')])])"
    by simp
  from len fulfilled kept pending worker ok failed timed who sub' fs' new merge
  show ?thesis by (intro conjI)
qed

text \<open>
  Claim C1 as stated fails: a task that is pending when the dispatcher stops gets no
  shutdown error. Whether \<open>stop\<close> comes while the task is running on its account or
  while its item is still in the global queue, the slot is pending afterwards and no
  fiber is left that could fulfil it.
\<close>

theorem stop_leaves_slot_pending:
  "futures (run example_lib (EStart # dispatched @ [EStop])
      (example_dispatcher ''round-robin'' [session_for ''a'' 1] plain_heap)) = [FPending]
   \<and> router_task (run example_lib (EStart # dispatched @ [EStop])
      (example_dispatcher ''round-robin'' [session_for ''a'' 1] plain_heap)) = None
   \<and> workers (run example_lib (EStart # dispatched @ [EStop])
      (example_dispatcher ''round-robin'' [session_for ''a'' 1] plain_heap)) = []
   \<and> map_of (workers (run example_lib (EStart # dispatched)
      (example_dispatcher ''round-robin'' [session_for ''a'' 1] plain_heap))) ''a''
     = Some (WRun \<lparr> request = 2, future = 0, created_ts = 1, task_id = ''task_0123456789ab'' \<rparr> 2)
   \<and> futures (run example_lib [EStart, ESubmit 0 example_uuid 1, EStop]
      (example_dispatcher ''round-robin'' [session_for ''a'' 1] plain_heap)) = [FPending]
   \<and> router_task (run example_lib [EStart, ESubmit 0 example_uuid 1, EStop]
      (example_dispatcher ''round-robin'' [session_for ''a'' 1] plain_heap)) = None
   \<and> workers (run example_lib [EStart, ESubmit 0 example_uuid 1, EStop]
      (example_dispatcher ''round-robin'' [session_for ''a'' 1] plain_heap)) = []"
  by code_simp

subsection \<open>The router and the capacity wait\<close>

text \<open>
  Claim C2 says that the router re-picks after the capacity wait, also when the second
  passes without a signal. One account with \<open>max_concurrency = 1\<close> runs a task for longer
  than a second while a second task is submitted: the router picks the saturated
  account and waits; the wait times out, \<open>wait_for\<close> raises \<open>TimeoutError\<close> and the router
  is over. The second task is in no queue any more; when the first task ends and the
  event is set, nothing routes it: its slot stays pending. (A request whose
  \<open>strategyHint\<close> is a number ends the router as well: a number has no \<open>lower\<close>.)
\<close>

theorem router_dies_on_capacity_timeout:
  "router_task (run example_lib
       [EStart, ESubmit 0 example_uuid 1, ERouterGet, ERouterPick, EWorkerGet ''a'' 2,
        ESubmit 0 example_uuid 3, ERouterGet, ERouterPick]
       (example_dispatcher ''round-robin'' [session_for ''a'' 1] plain_heap))
     = Some (RWaitCapacity
               \<lparr> request = 3, future = 1, created_ts = 3, task_id = ''task_0123456789ab'' \<rparr> PNone)
   \<and> router_task (run example_lib
       [EStart, ESubmit 0 example_uuid 1, ERouterGet, ERouterPick, EWorkerGet ''a'' 2,
        ESubmit 0 example_uuid 3, ERouterGet, ERouterPick, ECapacityTimeout]
       (example_dispatcher ''round-robin'' [session_for ''a'' 1] plain_heap))
     = Some (RRaised TimeoutError)
   \<and> futures (run example_lib
       [EStart, ESubmit 0 example_uuid 1, ERouterGet, ERouterPick, EWorkerGet ''a'' 2,
        ESubmit 0 example_uuid 3, ERouterGet, ERouterPick, ECapacityTimeout,
        EWorkerFinish ''a'' (exited 0 ''{}'' []) 4, ECapacityWake, ERouterPick, ERouterGet,
        EWorkerGet ''a'' 5]
       (example_dispatcher ''round-robin'' [session_for ''a'' 1] plain_heap))
     = [FResult (JObj [(''metadata'', JObj [(''account_id'', JStr ''a'')])]), FPending]
   \<and> router_task (run example_lib [EStart, ESubmit 0 example_uuid 1, ERouterGet, ERouterPick]
       (example_dispatcher ''round-robin'' [session_for ''a'' 1] (hinted_heap (PInt 5))))
     = Some (RRaised AttributeError)"
  by code_simp

subsection \<open>Errors at the HTTP surface\<close>

text \<open>
  Claim C3 says that a task command that exits non-zero is answered with status 500.
  \<open>run_task\<close> raises a \<open>RuntimeError\<close> for it, the worker puts it into the slot, \<open>submit\<close>
  re-raises it, and the handler's \<open>except RuntimeError\<close>, written for the full global
  queue, answers 429. (A timeout is answered 504, and an error that is no \<open>RuntimeError\<close>
  leaves the handler and is answered 500.)
\<close>

theorem task_failure_answered_429:
  "futures (run example_lib
       (EStart # dispatched @ [EWorkerFinish ''a'' (exited 1 [] ''boom'') 3])
       (example_dispatcher ''round-robin'' [session_for ''a'' 1] plain_heap))
     = [FException (RuntimeError ''taskCommand failed for a rc=1: boom'')]
   \<and> awaited (FException (RuntimeError ''taskCommand failed for a rc=1: boom''))
     = Some (Inl (RuntimeError ''taskCommand failed for a rc=1: boom''))
   \<and> v1_messages example_lib True plain_heap (PRef 0) example_uuid
       (Inl (RuntimeError ''taskCommand failed for a rc=1: boom''))
     = HTTPException 429 ''taskCommand failed for a rc=1: boom''
   \<and> status_code (HTTPException 429 ''taskCommand failed for a rc=1: boom'') = 429
   \<and> futures (run example_lib (EStart # dispatched @ [EWorkerFinish ''a'' TimedOut 3])
       (example_dispatcher ''round-robin'' [session_for ''a'' 1] plain_heap))
     = [FException TimeoutError]
   \<and> v1_messages example_lib True plain_heap (PRef 0) example_uuid (Inl TimeoutError)
     = HTTPException 504 ''Task timed out''
   \<and> status_code (v1_messages example_lib True plain_heap (PRef 0) example_uuid
       (Inl (OSError ''No such file or directory''))) = 500"
  by code_simp

subsection \<open>Health scores\<close>

lemma map_entry_list_all:
  assumes "list_all (\<lambda>(k, a). P a) al" and "\<And>a. P a \<Longrightarrow> P (f a)"
  shows "list_all (\<lambda>(k, a). P a) (AList.map_entry k f al)"
  using assms by (induction al) auto

lemma update_list_all:
  assumes "list_all (\<lambda>(k, a). P a) al" and "P v"
  shows "list_all (\<lambda>(k, a). P a) (AList.update k v al)"
  using assms by (induction al) auto

lemma on_success_range: "0 \<le> h \<Longrightarrow> h \<le> 100 \<Longrightarrow> 0 \<le> on_success h \<and> on_success h \<le> 100"
  by (simp add: on_success_def)

lemma on_error_range: "0 \<le> h \<Longrightarrow> h \<le> 100 \<Longrightarrow> 0 \<le> on_error h \<and> on_error h \<le> 100"
  by (simp add: on_error_def)

lemma on_queue_full_range:
  "0 \<le> h \<Longrightarrow> h \<le> 100 \<Longrightarrow> 0 \<le> on_queue_full h \<and> on_queue_full h \<le> 100"
  by (simp add: on_queue_full_def)

text \<open>The accounts after a turn of the router: unchanged, or one account penalised for
  its full queue, or one account given the item.\<close>

lemma router_pick_accounts:
  assumes "router_pick d = Some d'"
  shows "accounts d' = accounts d
       \<or> (\<exists>aid. accounts d' =
             AList.map_entry aid (\<lambda>a. a\<lparr> health_score := on_queue_full (health_score a) \<rparr>) (accounts d))
       \<or> (\<exists>aid item. accounts d' =
             AList.map_entry aid (\<lambda>a. a\<lparr> queue := queue a @ [item] \<rparr>) (accounts d))"
proof -
  from assms obtain item hint where rt: "router_task d = Some (RPick item hint)"
    by (auto simp: router_pick_def split: option.splits router_state.splits)
  show ?thesis
  proof (cases "stop_event d")
    case True
    with assms rt show ?thesis by (auto simp: router_pick_def)
  next
    case False
    show ?thesis
    proof (cases "pick_account d hint")
      case (Inl e)
      with assms rt False show ?thesis by (auto simp: router_pick_def)
    next
      case (Inr pr)
      obtain r d1 where pr: "pr = (r, d1)" by (cases pr)
      with Inr obtain c where d1: "d1 = d\<lparr> rr_cursor := c \<rparr>"
        using pick_account_state by blast
      show ?thesis
      proof (cases r)
        case None
        with assms rt False Inr pr d1 show ?thesis by (auto simp: router_pick_def)
      next
        case (Some p)
        obtain aid acc where p: "p = (aid, acc)" by (cases p)
        from assms rt False Inr pr Some p
        have d': "d' =
            (if max_concurrency (handle acc) \<le> inflight acc then
               d1\<lparr> capacity_event := False, router_task := Some (RWaitCapacity item hint) \<rparr>
             else if queue_full (per_account_queue_size (cfg d1)) (queue acc) then
               d1\<lparr> accounts :=
                     AList.map_entry aid
                       (\<lambda>a. a\<lparr> health_score := on_queue_full (health_score a) \<rparr>) (accounts d1) \<rparr>
             else
               d1\<lparr> accounts :=
                     AList.map_entry aid (\<lambda>a. a\<lparr> queue := queue a @ [item] \<rparr>) (accounts d1),
                   router_task := Some RGet \<rparr>)"
          by (simp add: router_pick_def)
        show ?thesis
        proof (cases "max_concurrency (handle acc) \<le> inflight acc")
          case True
          with d' d1 show ?thesis by simp
        next
          case notsat: False
          show ?thesis
          proof (cases "queue_full (per_account_queue_size (cfg d1)) (queue acc)")
            case True
            with d' d1 notsat have "accounts d' =
                AList.map_entry aid
                  (\<lambda>a. a\<lparr> health_score := on_queue_full (health_score a) \<rparr>) (accounts d)"
              by simp
            then show ?thesis by blast
          next
            case False
            with d' d1 notsat have "accounts d' =
                AList.map_entry aid (\<lambda>a. a\<lparr> queue := queue a @ [item] \<rparr>) (accounts d)"
              by simp
            then show ?thesis by blast
          qed
        qed
      qed
    qed
  qed
qed

lemma worker_finish_accounts:
  assumes "worker_finish lib d aid out now = Some d'"
  shows "\<exists>item t0 acc. map_of (workers d) aid = Some (WRun item t0) \<and> map_of (accounts d) aid = Some acc
       \<and> accounts d' = AList.map_entry aid
            (case task_result lib acc out of
               Inl e \<Rightarrow> failed now \<circ> released
             | Inr r \<Rightarrow> (case inject_account_id (account_id (handle acc)) r of
                          Inl e \<Rightarrow> failed now \<circ> succeeded t0 now \<circ> released
                        | Inr r' \<Rightarrow> succeeded t0 now \<circ> released))
            (accounts d)"
  using assms
  by (auto simp: worker_finish_def Let_def split: option.splits worker_state.splits sum.splits)

lemma fold_cancel_worker_scores:
  assumes "list_all (\<lambda>(k, a). 0 \<le> health_score a \<and> health_score a \<le> 100) (accounts d)"
  shows "list_all (\<lambda>(k, a). 0 \<le> health_score a \<and> health_score a \<le> 100)
           (accounts (fold cancel_worker ws d))"
  using assms
proof (induction ws arbitrary: d)
  case Nil
  then show ?case by simp
next
  case (Cons w ws)
  have "list_all (\<lambda>(k, a). 0 \<le> health_score a \<and> health_score a \<le> 100)
          (accounts (cancel_worker w d))"
    using Cons.prems
    by (auto simp: cancel_worker_def released_def split: worker_state.splits
        intro!: map_entry_list_all [where P = "\<lambda>a. 0 \<le> health_score a \<and> health_score a \<le> 100"])
  then show ?case using Cons.IH by simp
qed

lemma step_scores_in_range:
  assumes "list_all (\<lambda>(k, a). 0 \<le> health_score a \<and> health_score a \<le> 100) (accounts d)"
  shows "list_all (\<lambda>(k, a). 0 \<le> health_score a \<and> health_score a \<le> 100)
           (accounts (step lib e d))"
proof (cases e)
  case EStart
  with assms show ?thesis by (simp add: step_def start_def)
next
  case EStop
  with assms show ?thesis
    using fold_cancel_worker_scores [of "d\<lparr> stop_event := True \<rparr>" "workers d"]
    by (simp add: step_def stop_def)
next
  case (ESubmit r u now)
  with assms show ?thesis
    by (auto simp: step_def submit_def Let_def split: option.splits pyobj.splits)
next
  case ERouterGet
  with assms show ?thesis
    by (auto simp: step_def router_get_def split: option.splits router_state.splits list.splits)
next
  case ERouterPick
  show ?thesis
  proof (cases "router_pick d")
    case None
    with ERouterPick assms show ?thesis by (simp add: step_def)
  next
    case (Some d')
    from router_pick_accounts [OF Some] assms
    have "list_all (\<lambda>(k, a). 0 \<le> health_score a \<and> health_score a \<le> 100) (accounts d')"
      by (auto simp: on_queue_full_range
          intro!: map_entry_list_all [where P = "\<lambda>a. 0 \<le> health_score a \<and> health_score a \<le> 100"])
    with ERouterPick Some show ?thesis by (simp add: step_def)
  qed
next
  case ECapacityWake
  with assms show ?thesis
    by (auto simp: step_def router_capacity_wake_def split: option.splits router_state.splits)
next
  case ECapacityTimeout
  with assms show ?thesis
    by (auto simp: step_def router_capacity_timeout_def split: option.splits router_state.splits)
next
  case (EWorkerGet aid now)
  with assms show ?thesis
    by (auto simp: step_def worker_get_def split: option.splits worker_state.splits list.splits
        intro!: map_entry_list_all [where P = "\<lambda>a. 0 \<le> health_score a \<and> health_score a \<le> 100"])
next
  case (EWorkerFinish aid out now)
  show ?thesis
  proof (cases "worker_finish lib d aid out now")
    case None
    with EWorkerFinish assms show ?thesis by (simp add: step_def)
  next
    case (Some d')
    from worker_finish_accounts [OF Some] obtain item t0 acc where
      acc: "accounts d' = AList.map_entry aid
            (case task_result lib acc out of
               Inl e \<Rightarrow> failed now \<circ> released
             | Inr r \<Rightarrow> (case inject_account_id (account_id (handle acc)) r of
                          Inl e \<Rightarrow> failed now \<circ> succeeded t0 now \<circ> released
                        | Inr r' \<Rightarrow> succeeded t0 now \<circ> released))
            (accounts d)"
      by blast
    have "list_all (\<lambda>(k, a). 0 \<le> health_score a \<and> health_score a \<le> 100) (accounts d')"
      unfolding acc
      by (rule map_entry_list_all [where P = "\<lambda>a. 0 \<le> health_score a \<and> health_score a \<le> 100",
            OF assms])
         (auto simp: failed_def succeeded_def released_def on_success_range on_error_range
            split: sum.splits)
    with EWorkerFinish Some show ?thesis by (simp add: step_def)
  qed
next
  case (ECallerAlloc obj)
  with assms show ?thesis by (simp add: step_def)
next
  case (ECallerWrite a obj)
  with assms show ?thesis by (simp add: step_def)
next
  case (ECallerCancel g)
  with assms show ?thesis by (simp add: step_def)
qed

lemma run_scores_in_range:
  assumes "list_all (\<lambda>(k, a). 0 \<le> health_score a \<and> health_score a \<le> 100) (accounts d)"
  shows "list_all (\<lambda>(k, a). 0 \<le> health_score a \<and> health_score a \<le> 100)
           (accounts (run lib evs d))"
  using assms
proof (induction evs arbitrary: d)
  case Nil
  then show ?case by (simp add: run_def)
next
  case (Cons e evs)
  from Cons.IH [OF step_scores_in_range [OF Cons.prems]] show ?case by (simp add: run_def)
qed

lemma init_scores_in_range:
  assumes "Dispatcher_init c sessions hp = Inr d0"
  shows "list_all (\<lambda>(k, a). 0 \<le> health_score a \<and> health_score a \<le> 100) (accounts d0)"
proof -
  have "list_all (\<lambda>(k, a). 0 \<le> health_score a \<and> health_score a \<le> 100)
          (fold (\<lambda>(aid, h). AList.update aid (new_account h)) ss al)"
    if "list_all (\<lambda>(k, a). 0 \<le> health_score a \<and> health_score a \<le> 100) al" for ss al
    using that
  proof (induction ss arbitrary: al)
    case Nil
    then show ?case by simp
  next
    case (Cons s ss)
    obtain aid h where s: "s = (aid, h)" by (cases s)
    have "list_all (\<lambda>(k, a). 0 \<le> health_score a \<and> health_score a \<le> 100)
            (AList.update aid (new_account h) al)"
      using Cons.prems
      by (intro update_list_all [where P = "\<lambda>a. 0 \<le> health_score a \<and> health_score a \<le> 100"])
         (simp_all add: new_account_def)
    from Cons.IH [OF this] s show ?case by simp
  qed
  from this [of "[]" sessions] assms show ?thesis
    by (auto simp: Dispatcher_init_def split: if_splits)
qed

text \<open>The score of every account is between 0 and 100 in every state a dispatcher
  reaches from its construction.\<close>

lemma scores_in_range:
  assumes "Dispatcher_init c sessions hp = Inr d0"
  shows "list_all (\<lambda>(k, a). 0 \<le> health_score a \<and> health_score a \<le> 100)
           (accounts (run lib evs d0))"
  using run_scores_in_range [OF init_scores_in_range [OF assms]] .


subsection \<open>Routing\<close>

lemma pick_account_round_robin:
  assumes "strategy_of d hint = Inr s"
    and "s \<notin> set [''lru'', ''least-recently-used'', ''least_recently_used'']"
    and "s \<notin> set [''health'', ''health-score'', ''health_score'']"
    and "usable_accounts d \<noteq> []"
  shows "pick_account d hint =
           Inr (Some (sort_key (\<lambda>(k, a). account_id (handle a)) (usable_accounts d)
                        ! (rr_cursor d mod length (usable_accounts d))),
                d\<lparr> rr_cursor := (rr_cursor d mod length (usable_accounts d) + 1)
                                   mod length (usable_accounts d) \<rparr>)"
  using assms by (simp add: pick_account_def Let_def)

lemma py_min_by_first:
  "\<exists>pre post. b # xs = pre @ py_min_by f b xs # post
      \<and> (\<forall>q \<in> set pre. f (py_min_by f b xs) < f q)
      \<and> (\<forall>q \<in> set post. f (py_min_by f b xs) \<le> f q)"
proof (induction xs arbitrary: b)
  case Nil
  show ?case by (intro exI [of _ "[]"]) simp
next
  case (Cons x xs)
  show ?case
  proof (cases "f x < f b")
    case True
    let ?p = "py_min_by f x xs"
    from True have p: "py_min_by f b (x # xs) = ?p" by simp
    from Cons.IH [of x] obtain pre post where
      split: "x # xs = pre @ ?p # post" and
      before: "\<forall>q \<in> set pre. f ?p < f q" and
      after: "\<forall>q \<in> set post. f ?p \<le> f q"
      by blast
    have "x \<in> set (pre @ ?p # post)" using split [symmetric] by simp
    with before after have "f ?p \<le> f x" by auto
    with True have "f ?p < f b" by simp
    with before have before': "\<forall>q \<in> set (b # pre). f ?p < f q" by simp
    from split have "b # x # xs = (b # pre) @ ?p # post" by simp
    with before' after p show ?thesis by metis
  next
    case False
    let ?p = "py_min_by f b xs"
    from False have p: "py_min_by f b (x # xs) = ?p" by simp
    from Cons.IH [of b] obtain pre post where
      split: "b # xs = pre @ ?p # post" and
      before: "\<forall>q \<in> set pre. f ?p < f q" and
      after: "\<forall>q \<in> set post. f ?p \<le> f q"
      by blast
    show ?thesis
    proof (cases pre)
      case Nil
      with split have "b # xs = ?p # post" by (simp only: append_Nil)
      then have pb: "?p = b" and post: "post = xs" by (metis list.inject)+
      from pb False after post have after': "\<forall>q \<in> set (x # xs). f ?p \<le> f q" by simp
      from pb have "b # x # xs = [] @ ?p # (x # xs)" by simp
      moreover have "\<forall>q \<in> set []. f ?p < f q" by simp
      ultimately show ?thesis using after' p by metis
    next
      case (Cons c pre')
      with split have "b # xs = c # (pre' @ ?p # post)" by (simp only: append_Cons)
      then have c: "c = b" and xs: "xs = pre' @ ?p # post" by (metis list.inject)+
      from before Cons c have "f ?p < f b" by simp
      with False have "f ?p < f x" by simp
      with before Cons c have before': "\<forall>q \<in> set (b # x # pre'). f ?p < f q" by simp
      from xs have "b # x # xs = (b # x # pre') @ ?p # post" by simp
      with before' after p show ?thesis by metis
    qed
  qed
qed

lemma py_max_by_first:
  "\<exists>pre post. b # xs = pre @ py_max_by f b xs # post
      \<and> (\<forall>q \<in> set pre. f q < f (py_max_by f b xs))
      \<and> (\<forall>q \<in> set post. f q \<le> f (py_max_by f b xs))"
proof (induction xs arbitrary: b)
  case Nil
  show ?case by (intro exI [of _ "[]"]) simp
next
  case (Cons x xs)
  show ?case
  proof (cases "f b < f x")
    case True
    let ?p = "py_max_by f x xs"
    from True have p: "py_max_by f b (x # xs) = ?p" by simp
    from Cons.IH [of x] obtain pre post where
      split: "x # xs = pre @ ?p # post" and
      before: "\<forall>q \<in> set pre. f q < f ?p" and
      after: "\<forall>q \<in> set post. f q \<le> f ?p"
      by blast
    have "x \<in> set (pre @ ?p # post)" using split [symmetric] by simp
    with before after have "f x \<le> f ?p" by auto
    with True have "f b < f ?p" by simp
    with before have before': "\<forall>q \<in> set (b # pre). f q < f ?p" by simp
    from split have "b # x # xs = (b # pre) @ ?p # post" by simp
    with before' after p show ?thesis by metis
  next
    case False
    let ?p = "py_max_by f b xs"
    from False have p: "py_max_by f b (x # xs) = ?p" by simp
    from Cons.IH [of b] obtain pre post where
      split: "b # xs = pre @ ?p # post" and
      before: "\<forall>q \<in> set pre. f q < f ?p" and
      after: "\<forall>q \<in> set post. f q \<le> f ?p"
      by blast
    show ?thesis
    proof (cases pre)
      case Nil
      with split have "b # xs = ?p # post" by (simp only: append_Nil)
      then have pb: "?p = b" and post: "post = xs" by (metis list.inject)+
      from pb False after post have after': "\<forall>q \<in> set (x # xs). f q \<le> f ?p" by simp
      from pb have "b # x # xs = [] @ ?p # (x # xs)" by simp
      moreover have "\<forall>q \<in> set []. f q < f ?p" by simp
      ultimately show ?thesis using after' p by metis
    next
      case (Cons c pre')
      with split have "b # xs = c # (pre' @ ?p # post)" by (simp only: append_Cons)
      then have c: "c = b" and xs: "xs = pre' @ ?p # post" by (metis list.inject)+
      from before Cons c have "f b < f ?p" by simp
      with False have "f x < f ?p" by simp
      with before Cons c have before': "\<forall>q \<in> set (b # x # pre'). f q < f ?p" by simp
      from xs have "b # x # xs = (b # x # pre') @ ?p # post" by simp
      with before' after p show ?thesis by metis
    qed
  qed
qed

text \<open>
  Claim C6. Under the round-robin strategy a pick orders the usable accounts by
  \<open>account_id\<close> (strings compare lexicographically), takes the account at the cursor's
  position modulo the number of usable accounts, and leaves the cursor one further
  (modulo that number). With the two accounts \<open>a\<close> and \<open>b\<close>, both usable throughout, four
  requests submitted one after the other, each when the one before is answered, are
  served by \<open>a\<close>, \<open>b\<close>, \<open>a\<close>, \<open>b\<close>.
\<close>

theorem round_robin_pick:
  "(strategy_of d hint = Inr ''round-robin'' \<and> usable_accounts d \<noteq> [] \<longrightarrow>
      (\<exists>ordered. mset ordered = mset (usable_accounts d)
         \<and> sorted (map (\<lambda>(k, a). account_id (handle a)) ordered)
         \<and> pick_account d hint =
             Inr (Some (ordered ! (rr_cursor d mod length ordered)),
                  d\<lparr> rr_cursor := (rr_cursor d mod length ordered + 1) mod length ordered \<rparr>)))
   \<and> futures (run example_lib
        (EStart # served (exited 0 ''{}'' []) @ served (exited 0 ''{}'' [])
           @ served (exited 0 ''{}'' []) @ served (exited 0 ''{}'' []))
        (example_dispatcher ''round-robin'' [session_for ''a'' 1, session_for ''b'' 1] plain_heap))
     = [FResult (JObj [(''metadata'', JObj [(''account_id'', JStr ''a'')])]),
        FResult (JObj [(''metadata'', JObj [(''account_id'', JStr ''b'')])]),
        FResult (JObj [(''metadata'', JObj [(''account_id'', JStr ''a'')])]),
        FResult (JObj [(''metadata'', JObj [(''account_id'', JStr ''b'')])])]"
proof (intro conjI impI)
  assume rr: "strategy_of d hint = Inr ''round-robin'' \<and> usable_accounts d \<noteq> []"
  let ?ordered = "sort_key (\<lambda>(k, a). account_id (handle a)) (usable_accounts d)"
  from rr have "pick_account d hint =
      Inr (Some (?ordered ! (rr_cursor d mod length ?ordered)),
           d\<lparr> rr_cursor := (rr_cursor d mod length ?ordered + 1) mod length ?ordered \<rparr>)"
    using pick_account_round_robin [of d hint "''round-robin''"] by simp
  moreover have "mset ?ordered = mset (usable_accounts d)" by simp
  moreover have "sorted (map (\<lambda>(k, a). account_id (handle a)) ?ordered)"
    by (rule sorted_sort_key)
  ultimately show "\<exists>ordered. mset ordered = mset (usable_accounts d)
         \<and> sorted (map (\<lambda>(k, a). account_id (handle a)) ordered)
         \<and> pick_account d hint =
             Inr (Some (ordered ! (rr_cursor d mod length ordered)),
                  d\<lparr> rr_cursor := (rr_cursor d mod length ordered + 1) mod length ordered \<rparr>)"
    by blast
next
  show "futures (run example_lib
        (EStart # served (exited 0 ''{}'' []) @ served (exited 0 ''{}'' [])
           @ served (exited 0 ''{}'' []) @ served (exited 0 ''{}'' []))
        (example_dispatcher ''round-robin'' [session_for ''a'' 1, session_for ''b'' 1] plain_heap))
     = [FResult (JObj [(''metadata'', JObj [(''account_id'', JStr ''a'')])]),
        FResult (JObj [(''metadata'', JObj [(''account_id'', JStr ''b'')])]),
        FResult (JObj [(''metadata'', JObj [(''account_id'', JStr ''a'')])]),
        FResult (JObj [(''metadata'', JObj [(''account_id'', JStr ''b'')])])]"
    by code_simp
qed

theorem round_robin_pick_witness:
  "strategy_of (example_dispatcher ''Round-Robin'' [session_for ''b'' 1, session_for ''a'' 1] plain_heap)
      PNone = Inr ''round-robin''
   \<and> usable_accounts (example_dispatcher ''Round-Robin'' [session_for ''b'' 1, session_for ''a'' 1] plain_heap)
       \<noteq> []
   \<and> (\<exists>ordered.
         mset ordered = mset (usable_accounts
           (example_dispatcher ''Round-Robin'' [session_for ''b'' 1, session_for ''a'' 1] plain_heap))
       \<and> sorted (map (\<lambda>(k, a). account_id (handle a)) ordered)
       \<and> pick_account
           (example_dispatcher ''Round-Robin'' [session_for ''b'' 1, session_for ''a'' 1] plain_heap) PNone
         = Inr (Some (ordered !
                  (rr_cursor (example_dispatcher ''Round-Robin''
                      [session_for ''b'' 1, session_for ''a'' 1] plain_heap) mod length ordered)),
                (example_dispatcher ''Round-Robin'' [session_for ''b'' 1, session_for ''a'' 1] plain_heap)
                  \<lparr> rr_cursor :=
                      (rr_cursor (example_dispatcher ''Round-Robin''
                          [session_for ''b'' 1, session_for ''a'' 1] plain_heap) mod length ordered + 1)
                        mod length ordered \<rparr>))"
proof -
  let ?d = "example_dispatcher ''Round-Robin'' [session_for ''b'' 1, session_for ''a'' 1] plain_heap"
  have s: "strategy_of ?d PNone = Inr ''round-robin''" by code_simp
  have u: "usable_accounts ?d \<noteq> []"
    by (simp add: usable_accounts_def example_dispatcher_def Dispatcher_init_def session_for_def
          new_account_def)
  from round_robin_pick [of ?d PNone] s u show ?thesis by blast
qed

text \<open>
  Claim C7, as amended. Under the lru strategy the router picks a usable account with
  the smallest \<open>last_used_ts\<close>, under the health strategy one with the largest
  \<open>health_score\<close>; among several such accounts it picks the one that comes first in the
  dispatcher's account mapping, which keeps the order of the configuration: every usable
  account before the picked one is strictly worse, every one after it is no better.
\<close>

theorem lru_and_health_pick_first_best:
  assumes "strategy_of d hint = Inr s" and "usable_accounts d \<noteq> []"
  shows "(s \<in> set [''lru'', ''least-recently-used'', ''least_recently_used''] \<longrightarrow>
            (\<exists>pre p post. usable_accounts d = pre @ p # post
               \<and> pick_account d hint = Inr (Some p, d)
               \<and> (\<forall>q \<in> set pre. last_used_ts (snd p) < last_used_ts (snd q))
               \<and> (\<forall>q \<in> set post. last_used_ts (snd p) \<le> last_used_ts (snd q))))
       \<and> (s \<in> set [''health'', ''health-score'', ''health_score''] \<longrightarrow>
            (\<exists>pre p post. usable_accounts d = pre @ p # post
               \<and> pick_account d hint = Inr (Some p, d)
               \<and> (\<forall>q \<in> set pre. health_score (snd q) < health_score (snd p))
               \<and> (\<forall>q \<in> set post. health_score (snd q) \<le> health_score (snd p))))"
proof (intro conjI impI)
  assume lru: "s \<in> set [''lru'', ''least-recently-used'', ''least_recently_used'']"
  let ?u = "usable_accounts d"
  let ?p = "py_min_by (\<lambda>(k, a). last_used_ts a) (hd ?u) (tl ?u)"
  from assms lru have pick: "pick_account d hint = Inr (Some ?p, d)"
    by (simp add: pick_account_def Let_def)
  from py_min_by_first [of "hd ?u" "tl ?u" "\<lambda>(k, a). last_used_ts a"] assms(2)
  obtain pre post where u: "?u = pre @ ?p # post"
    and b: "\<forall>q \<in> set pre. (\<lambda>(k, a). last_used_ts a) ?p < (\<lambda>(k, a). last_used_ts a) q"
    and a: "\<forall>q \<in> set post. (\<lambda>(k, a). last_used_ts a) ?p \<le> (\<lambda>(k, a). last_used_ts a) q"
    by auto
  from b have b': "\<forall>q \<in> set pre. last_used_ts (snd ?p) < last_used_ts (snd q)"
    by (simp add: case_prod_beta)
  from a have a': "\<forall>q \<in> set post. last_used_ts (snd ?p) \<le> last_used_ts (snd q)"
    by (simp add: case_prod_beta)
  from u pick b' a' show "\<exists>pre p post. ?u = pre @ p # post
               \<and> pick_account d hint = Inr (Some p, d)
               \<and> (\<forall>q \<in> set pre. last_used_ts (snd p) < last_used_ts (snd q))
               \<and> (\<forall>q \<in> set post. last_used_ts (snd p) \<le> last_used_ts (snd q))"
    by blast
next
  assume health: "s \<in> set [''health'', ''health-score'', ''health_score'']"
  then have nl: "s \<notin> set [''lru'', ''least-recently-used'', ''least_recently_used'']" by auto
  let ?u = "usable_accounts d"
  let ?p = "py_max_by (\<lambda>(k, a). health_score a) (hd ?u) (tl ?u)"
  from assms health nl have pick: "pick_account d hint = Inr (Some ?p, d)"
    by (simp add: pick_account_def Let_def)
  from py_max_by_first [of "hd ?u" "tl ?u" "\<lambda>(k, a). health_score a"] assms(2)
  obtain pre post where u: "?u = pre @ ?p # post"
    and b: "\<forall>q \<in> set pre. (\<lambda>(k, a). health_score a) q < (\<lambda>(k, a). health_score a) ?p"
    and a: "\<forall>q \<in> set post. (\<lambda>(k, a). health_score a) q \<le> (\<lambda>(k, a). health_score a) ?p"
    by auto
  from b have b': "\<forall>q \<in> set pre. health_score (snd q) < health_score (snd ?p)"
    by (simp add: case_prod_beta)
  from a have a': "\<forall>q \<in> set post. health_score (snd q) \<le> health_score (snd ?p)"
    by (simp add: case_prod_beta)
  from u pick b' a' show "\<exists>pre p post. ?u = pre @ p # post
               \<and> pick_account d hint = Inr (Some p, d)
               \<and> (\<forall>q \<in> set pre. health_score (snd q) < health_score (snd p))
               \<and> (\<forall>q \<in> set post. health_score (snd q) \<le> health_score (snd p))"
    by blast
qed

theorem lru_and_health_pick_first_best_witness:
  "strategy_of (run example_lib (EStart # served (exited 0 ''{}'' []))
       (example_dispatcher ''lru'' [session_for ''a'' 1, session_for ''b'' 1, session_for ''c'' 1]
          plain_heap)) PNone = Inr ''lru''
   \<and> map fst (usable_accounts (run example_lib (EStart # served (exited 0 ''{}'' []))
       (example_dispatcher ''lru'' [session_for ''a'' 1, session_for ''b'' 1, session_for ''c'' 1]
          plain_heap))) = [''a'', ''b'', ''c'']
   \<and> (\<exists>pre p post.
         usable_accounts (run example_lib (EStart # served (exited 0 ''{}'' []))
           (example_dispatcher ''lru'' [session_for ''a'' 1, session_for ''b'' 1, session_for ''c'' 1]
              plain_heap)) = pre @ p # post
       \<and> pick_account (run example_lib (EStart # served (exited 0 ''{}'' []))
           (example_dispatcher ''lru'' [session_for ''a'' 1, session_for ''b'' 1, session_for ''c'' 1]
              plain_heap)) PNone
         = Inr (Some p, run example_lib (EStart # served (exited 0 ''{}'' []))
             (example_dispatcher ''lru'' [session_for ''a'' 1, session_for ''b'' 1, session_for ''c'' 1]
                plain_heap))
       \<and> fst p = ''b''
       \<and> list_all (\<lambda>q. last_used_ts (snd p) < last_used_ts (snd q)) pre
       \<and> list_all (\<lambda>q. last_used_ts (snd p) \<le> last_used_ts (snd q)) post)
   \<and> strategy_of (run example_lib (EStart # served (exited 1 [] ''boom''))
       (example_dispatcher ''Health'' [session_for ''a'' 1, session_for ''b'' 1, session_for ''c'' 1]
          plain_heap)) PNone = Inr ''health''
   \<and> map fst (usable_accounts (run example_lib (EStart # served (exited 1 [] ''boom''))
       (example_dispatcher ''Health'' [session_for ''a'' 1, session_for ''b'' 1, session_for ''c'' 1]
          plain_heap))) = [''a'', ''b'', ''c'']
   \<and> (\<exists>pre p post.
         usable_accounts (run example_lib (EStart # served (exited 1 [] ''boom''))
           (example_dispatcher ''Health'' [session_for ''a'' 1, session_for ''b'' 1, session_for ''c'' 1]
              plain_heap)) = pre @ p # post
       \<and> pick_account (run example_lib (EStart # served (exited 1 [] ''boom''))
           (example_dispatcher ''Health'' [session_for ''a'' 1, session_for ''b'' 1, session_for ''c'' 1]
              plain_heap)) PNone
         = Inr (Some p, run example_lib (EStart # served (exited 1 [] ''boom''))
             (example_dispatcher ''Health'' [session_for ''a'' 1, session_for ''b'' 1, session_for ''c'' 1]
                plain_heap))
       \<and> fst p = ''b''
       \<and> list_all (\<lambda>q. health_score (snd q) < health_score (snd p)) pre
       \<and> list_all (\<lambda>q. health_score (snd q) \<le> health_score (snd p)) post)"
proof -
  let ?l = "run example_lib (EStart # served (exited 0 ''{}'' []))
       (example_dispatcher ''lru'' [session_for ''a'' 1, session_for ''b'' 1, session_for ''c'' 1]
          plain_heap)"
  let ?h = "run example_lib (EStart # served (exited 1 [] ''boom''))
       (example_dispatcher ''Health'' [session_for ''a'' 1, session_for ''b'' 1, session_for ''c'' 1]
          plain_heap)"
  have sl: "strategy_of ?l PNone = Inr ''lru''" by code_simp
  have sh: "strategy_of ?h PNone = Inr ''health''" by code_simp
  have ul: "map fst (usable_accounts ?l) = [''a'', ''b'', ''c'']" by code_simp
  have uh: "map fst (usable_accounts ?h) = [''a'', ''b'', ''c'']" by code_simp
  from ul have nl: "usable_accounts ?l \<noteq> []" by auto
  from uh have nh: "usable_accounts ?h \<noteq> []" by auto
  have pl: "(case pick_account ?l PNone of Inr (r, d') \<Rightarrow> map_option fst r | Inl e \<Rightarrow> None)
      = Some ''b''" by code_simp
  have ph: "(case pick_account ?h PNone of Inr (r, d') \<Rightarrow> map_option fst r | Inl e \<Rightarrow> None)
      = Some ''b''" by code_simp
  from lru_and_health_pick_first_best [OF sl nl] obtain pre p post where
    "usable_accounts ?l = pre @ p # post" and pick: "pick_account ?l PNone = Inr (Some p, ?l)"
    and "\<forall>q \<in> set pre. last_used_ts (snd p) < last_used_ts (snd q)"
    and "\<forall>q \<in> set post. last_used_ts (snd p) \<le> last_used_ts (snd q)"
    by auto
  moreover from pick pl have "fst p = ''b''" by simp
  ultimately have lru: "\<exists>pre p post.
         usable_accounts ?l = pre @ p # post
       \<and> pick_account ?l PNone = Inr (Some p, ?l)
       \<and> fst p = ''b''
       \<and> list_all (\<lambda>q. last_used_ts (snd p) < last_used_ts (snd q)) pre
       \<and> list_all (\<lambda>q. last_used_ts (snd p) \<le> last_used_ts (snd q)) post"
    unfolding list_all_iff by blast
  from lru_and_health_pick_first_best [OF sh nh] obtain pre p post where
    "usable_accounts ?h = pre @ p # post" and pick: "pick_account ?h PNone = Inr (Some p, ?h)"
    and "\<forall>q \<in> set pre. health_score (snd q) < health_score (snd p)"
    and "\<forall>q \<in> set post. health_score (snd q) \<le> health_score (snd p)"
    by auto
  moreover from pick ph have "fst p = ''b''" by simp
  ultimately have health: "\<exists>pre p post.
         usable_accounts ?h = pre @ p # post
       \<and> pick_account ?h PNone = Inr (Some p, ?h)
       \<and> fst p = ''b''
       \<and> list_all (\<lambda>q. health_score (snd q) < health_score (snd p)) pre
       \<and> list_all (\<lambda>q. health_score (snd q) \<le> health_score (snd p)) post"
    unfolding list_all_iff by blast
  from sl ul lru sh uh health show ?thesis by blast
qed

text \<open>
  Claim C7 as stated fails on the tie-break. A fleet configured in the order \<open>b\<close>, \<open>a\<close>
  has, before any task, equal \<open>last_used_ts\<close> and equal \<open>health_score\<close> on both accounts;
  lru and health both pick \<open>b\<close>, though \<open>a\<close> is the lexicographically smaller id.
\<close>

theorem tie_broken_by_fleet_order:
  "pick_account (example_dispatcher ''lru'' [session_for ''b'' 1, session_for ''a'' 1] plain_heap) PNone
     = Inr (Some (''b'', new_account (snd (session_for ''b'' 1))),
            example_dispatcher ''lru'' [session_for ''b'' 1, session_for ''a'' 1] plain_heap)
   \<and> pick_account (example_dispatcher ''health'' [session_for ''b'' 1, session_for ''a'' 1] plain_heap)
       PNone
     = Inr (Some (''b'', new_account (snd (session_for ''b'' 1))),
            example_dispatcher ''health'' [session_for ''b'' 1, session_for ''a'' 1] plain_heap)
   \<and> map fst (usable_accounts
        (example_dispatcher ''lru'' [session_for ''b'' 1, session_for ''a'' 1] plain_heap))
     = [''b'', ''a'']
   \<and> last_used_ts (new_account (snd (session_for ''a'' 1)))
     = last_used_ts (new_account (snd (session_for ''b'' 1)))
   \<and> health_score (new_account (snd (session_for ''a'' 1)))
     = health_score (new_account (snd (session_for ''b'' 1)))
   \<and> ''a'' < ''b''"
  by (simp add: pick_account_def strategy_of_def usable_accounts_def example_dispatcher_def
        Dispatcher_init_def DispatcherConfig_default_def session_for_def new_account_def
        lower_def lower_char_def Let_def)

text \<open>
  Claim C10, as amended. For every task whose \<open>strategyHint\<close> is a non-empty string that
  lower-cases to none of the names of the lru and health strategies, the pick is the
  round-robin one, whatever routing the dispatcher is configured with. A hint that is
  present but falsy (the empty string, for one) is treated as an absent hint.
\<close>

theorem unrecognised_hint_picks_round_robin:
  "(s \<noteq> []
      \<and> lower s \<notin> set [''lru'', ''least-recently-used'', ''least_recently_used'']
      \<and> lower s \<notin> set [''health'', ''health-score'', ''health_score'']
      \<and> usable_accounts d \<noteq> [] \<longrightarrow>
      pick_account (d\<lparr> cfg := (cfg d)\<lparr> routing := rt \<rparr> \<rparr>) (PStr s) =
        Inr (Some (sort_key (\<lambda>(k, a). account_id (handle a)) (usable_accounts d)
                     ! (rr_cursor d mod length (usable_accounts d))),
             d\<lparr> cfg := (cfg d)\<lparr> routing := rt \<rparr>,
                rr_cursor := (rr_cursor d mod length (usable_accounts d) + 1)
                               mod length (usable_accounts d) \<rparr>))
   \<and> (\<not> truthy (heap d) hint \<longrightarrow> pick_account d hint = pick_account d PNone)"
proof (intro conjI impI)
  assume h: "s \<noteq> []
      \<and> lower s \<notin> set [''lru'', ''least-recently-used'', ''least_recently_used'']
      \<and> lower s \<notin> set [''health'', ''health-score'', ''health_score'']
      \<and> usable_accounts d \<noteq> []"
  let ?d = "d\<lparr> cfg := (cfg d)\<lparr> routing := rt \<rparr> \<rparr>"
  from h have "strategy_of ?d (PStr s) = Inr (lower s)" by (simp add: strategy_of_def)
  moreover have "usable_accounts ?d = usable_accounts d" by (simp add: usable_accounts_def)
  ultimately show "pick_account ?d (PStr s) =
        Inr (Some (sort_key (\<lambda>(k, a). account_id (handle a)) (usable_accounts d)
                     ! (rr_cursor d mod length (usable_accounts d))),
             d\<lparr> cfg := (cfg d)\<lparr> routing := rt \<rparr>,
                rr_cursor := (rr_cursor d mod length (usable_accounts d) + 1)
                               mod length (usable_accounts d) \<rparr>)"
    using pick_account_round_robin [of ?d "PStr s" "lower s"] h by simp
next
  assume "\<not> truthy (heap d) hint"
  then have "strategy_of d hint = strategy_of d PNone" by (simp add: strategy_of_def)
  then show "pick_account d hint = pick_account d PNone" by (simp add: pick_account_def)
qed

theorem unrecognised_hint_picks_round_robin_witness:
  "''Fastest'' \<noteq> []
   \<and> lower ''Fastest'' \<notin> set [''lru'', ''least-recently-used'', ''least_recently_used'']
   \<and> lower ''Fastest'' \<notin> set [''health'', ''health-score'', ''health_score'']
   \<and> usable_accounts (example_dispatcher ''lru'' [session_for ''b'' 1, session_for ''a'' 1] plain_heap)
       \<noteq> []
   \<and> pick_account
       ((example_dispatcher ''lru'' [session_for ''b'' 1, session_for ''a'' 1] plain_heap)
          \<lparr> cfg := (cfg (example_dispatcher ''lru'' [session_for ''b'' 1, session_for ''a'' 1] plain_heap))
                     \<lparr> routing := ''health'' \<rparr> \<rparr>)
       (PStr ''Fastest'')
     = Inr (Some (sort_key (\<lambda>(k, a). account_id (handle a))
                    (usable_accounts
                       (example_dispatcher ''lru'' [session_for ''b'' 1, session_for ''a'' 1] plain_heap))
                  ! (rr_cursor
                       (example_dispatcher ''lru'' [session_for ''b'' 1, session_for ''a'' 1] plain_heap)
                     mod length (usable_accounts
                       (example_dispatcher ''lru'' [session_for ''b'' 1, session_for ''a'' 1] plain_heap)))),
            (example_dispatcher ''lru'' [session_for ''b'' 1, session_for ''a'' 1] plain_heap)
              \<lparr> cfg := (cfg (example_dispatcher ''lru'' [session_for ''b'' 1, session_for ''a'' 1]
                               plain_heap)) \<lparr> routing := ''health'' \<rparr>,
                 rr_cursor :=
                   (rr_cursor
                      (example_dispatcher ''lru'' [session_for ''b'' 1, session_for ''a'' 1] plain_heap)
                    mod length (usable_accounts
                      (example_dispatcher ''lru'' [session_for ''b'' 1, session_for ''a'' 1] plain_heap))
                    + 1)
                   mod length (usable_accounts
                     (example_dispatcher ''lru'' [session_for ''b'' 1, session_for ''a'' 1] plain_heap)) \<rparr>)
   \<and> fst (sort_key (\<lambda>(k, a). account_id (handle a))
            (usable_accounts
               (example_dispatcher ''lru'' [session_for ''b'' 1, session_for ''a'' 1] plain_heap))
          ! (rr_cursor
               (example_dispatcher ''lru'' [session_for ''b'' 1, session_for ''a'' 1] plain_heap)
             mod length (usable_accounts
               (example_dispatcher ''lru'' [session_for ''b'' 1, session_for ''a'' 1] plain_heap))))
     = ''a''
   \<and> \<not> truthy (heap (example_dispatcher ''lru'' [session_for ''b'' 1, session_for ''a'' 1] plain_heap))
         (PStr [])
   \<and> pick_account (example_dispatcher ''lru'' [session_for ''b'' 1, session_for ''a'' 1] plain_heap)
       (PStr [])
     = pick_account (example_dispatcher ''lru'' [session_for ''b'' 1, session_for ''a'' 1] plain_heap)
         PNone"
proof -
  let ?d = "example_dispatcher ''lru'' [session_for ''b'' 1, session_for ''a'' 1] plain_heap"
  have n: "''Fastest'' \<noteq> []" by simp
  have l: "lower ''Fastest'' \<notin> set [''lru'', ''least-recently-used'', ''least_recently_used'']"
    by (simp add: lower_def lower_char_def)
  have h: "lower ''Fastest'' \<notin> set [''health'', ''health-score'', ''health_score'']"
    by (simp add: lower_def lower_char_def)
  have u: "usable_accounts ?d \<noteq> []"
    by (simp add: usable_accounts_def example_dispatcher_def Dispatcher_init_def session_for_def
          new_account_def)
  have a: "fst (sort_key (\<lambda>(k, a). account_id (handle a)) (usable_accounts ?d)
                 ! (rr_cursor ?d mod length (usable_accounts ?d))) = ''a''"
    by code_simp
  have f: "\<not> truthy (heap ?d) (PStr [])" by simp
  from unrecognised_hint_picks_round_robin [of "''Fastest''" ?d "''health''" "PStr []"] n l h u a f
  show ?thesis by blast
qed

text \<open>
  Claim C10 as stated fails for a hint that is present and empty: \<open>hint or routing\<close>
  falls back to the configured strategy. A dispatcher configured with the health strategy
  serves two requests in turn whose \<open>strategyHint\<close> is the empty string both on \<open>a\<close> (the
  first account with the highest score), where round-robin serves the second on \<open>b\<close>, as
  it does for the unrecognised hint \<open>fastest\<close>.
\<close>

theorem empty_hint_falls_back_to_configured:
  "request_hint (hinted_heap (PStr [])) 0 = Inr (PStr [])
   \<and> futures (run example_lib
        (EStart # served (exited 0 ''{}'' []) @ served (exited 0 ''{}'' []))
        (example_dispatcher ''health'' [session_for ''a'' 1, session_for ''b'' 1]
           (hinted_heap (PStr []))))
     = [FResult (JObj [(''metadata'', JObj [(''account_id'', JStr ''a'')])]),
        FResult (JObj [(''metadata'', JObj [(''account_id'', JStr ''a'')])])]
   \<and> futures (run example_lib
        (EStart # served (exited 0 ''{}'' []) @ served (exited 0 ''{}'' []))
        (example_dispatcher ''health'' [session_for ''a'' 1, session_for ''b'' 1]
           (hinted_heap (PStr ''fastest''))))
     = [FResult (JObj [(''metadata'', JObj [(''account_id'', JStr ''a'')])]),
        FResult (JObj [(''metadata'', JObj [(''account_id'', JStr ''b'')])])]"
  by code_simp

subsection \<open>The request copy\<close>

lemma step_heap_frame:
  assumes "a < length (heap d)" and "\<forall>obj. e \<noteq> ECallerWrite a obj"
  shows "a < length (heap (step lib e d)) \<and> heap (step lib e d) ! a = heap d ! a"
proof (cases e)
  case EStart
  with assms show ?thesis by (simp add: step_def start_def)
next
  case EStop
  with assms show ?thesis by (simp add: step_def stop_def fold_cancel_worker_heap)
next
  case (ESubmit r u now)
  with assms show ?thesis
    by (auto simp: step_def submit_def Let_def nth_append split: option.splits pyobj.splits)
next
  case ERouterGet
  with assms show ?thesis
    by (auto simp: step_def router_get_def split: option.splits router_state.splits list.splits)
next
  case ERouterPick
  with assms show ?thesis
    by (cases "router_pick d") (auto simp: step_def dest: router_pick_frame)
next
  case ECapacityWake
  with assms show ?thesis
    by (auto simp: step_def router_capacity_wake_def split: option.splits router_state.splits)
next
  case ECapacityTimeout
  with assms show ?thesis
    by (auto simp: step_def router_capacity_timeout_def split: option.splits router_state.splits)
next
  case (EWorkerGet aid now)
  with assms show ?thesis
    by (auto simp: step_def worker_get_def split: option.splits worker_state.splits list.splits)
next
  case (EWorkerFinish aid out now)
  with assms show ?thesis
    by (auto simp: step_def worker_finish_def Let_def
        split: option.splits worker_state.splits sum.splits prod.splits)
next
  case (ECallerAlloc obj)
  with assms show ?thesis by (simp add: step_def nth_append)
next
  case (ECallerWrite b obj)
  with assms have "b \<noteq> a" by blast
  with ECallerWrite assms show ?thesis by (simp add: step_def)
next
  case (ECallerCancel g)
  with assms show ?thesis by (simp add: step_def)
qed

lemma run_heap_frame:
  assumes "a < length (heap d)" and "\<forall>obj. ECallerWrite a obj \<notin> set evs"
  shows "a < length (heap (run lib evs d)) \<and> heap (run lib evs d) ! a = heap d ! a"
  using assms
proof (induction evs arbitrary: d)
  case Nil
  then show ?case by (simp add: run_def)
next
  case (Cons e evs)
  from Cons.prems have e: "\<forall>obj. e \<noteq> ECallerWrite a obj"
    and rest: "\<forall>obj. ECallerWrite a obj \<notin> set evs" by auto
  from step_heap_frame [OF Cons.prems(1) e]
  have s: "a < length (heap (step lib e d))" and eq: "heap (step lib e d) ! a = heap d ! a"
    by blast+
  from Cons.IH [OF s rest] eq show ?case by (simp add: run_def)
qed

text \<open>
  Claim C8, as amended. \<open>Dispatcher.submit\<close> copies the top level of the caller's
  request into the \<open>TaskItem\<close>: the item's request is a new dict, at an address no caller
  holds, with the keys of the caller's mapping and the very values they were bound to.
  Along every execution in which no caller writes to that new dict, it keeps these
  entries, whatever is written to the caller's own mapping.
\<close>

theorem submit_copies_top_level:
  assumes "submit d r u now = Inr (d1, g)"
  shows "\<exists>es item. heap_get (heap d) r = Some (PDict es)
           \<and> global_queue d1 = global_queue d @ [item]
           \<and> request item = length (heap d) \<and> r < request item
           \<and> ((\<forall>obj. ECallerWrite (request item) obj \<notin> set evs) \<longrightarrow>
                heap_get (heap (run lib evs d1)) (request item) = Some (PDict es))"
proof -
  from assms obtain es where es: "heap_get (heap d) r = Some (PDict es)"
    by (auto simp: submit_def Let_def split: if_splits option.splits pyobj.splits)
  then have r: "r < length (heap d)" by (auto simp: heap_get_def split: if_splits)
  let ?item = "\<lparr> request = length (heap d), future = length (futures d),
                  created_ts = now, task_id = ''task_'' @ take 12 u \<rparr>"
  from assms es have d1: "d1 = d\<lparr> heap := heap d @ [PDict es],
                                   futures := futures d @ [FPending],
                                   global_queue := global_queue d @ [?item] \<rparr>"
    by (auto simp: submit_def Let_def split: if_splits)
  then have q: "global_queue d1 = global_queue d @ [?item]" by simp
  have kept: "heap_get (heap (run lib evs d1)) (request ?item) = Some (PDict es)"
    if "\<forall>obj. ECallerWrite (request ?item) obj \<notin> set evs"
  proof -
    from d1 have len: "request ?item < length (heap d1)" and at: "heap d1 ! request ?item = PDict es"
      by simp_all
    from run_heap_frame [OF len that, of lib] at show ?thesis by (simp add: heap_get_def)
  qed
  from es q r kept show ?thesis
    by (intro exI [of _ es] exI [of _ ?item]) simp
qed

theorem submit_copies_top_level_witness:
  "submit (example_dispatcher ''round-robin'' [session_for ''a'' 1] (hinted_heap (PStr ''lru'')))
      0 example_uuid 1
     = Inr (step example_lib (ESubmit 0 example_uuid 1)
              (example_dispatcher ''round-robin'' [session_for ''a'' 1] (hinted_heap (PStr ''lru''))), 0)
   \<and> list_all (\<lambda>e. e \<noteq> ECallerWrite 4 (PDict []))
       [ECallerWrite 0 (PDict []), ECallerAlloc (PList []), EStart, ERouterGet]
   \<and> heap_get (heap (run example_lib
         [ECallerWrite 0 (PDict []), ECallerAlloc (PList []), EStart, ERouterGet]
         (step example_lib (ESubmit 0 example_uuid 1)
            (example_dispatcher ''round-robin'' [session_for ''a'' 1] (hinted_heap (PStr ''lru'')))))) 4
     = Some (PDict [(''model'', PStr ''m''), (''messages'', PRef 1), (''metadata'', PRef 2)])"
proof -
  let ?d = "example_dispatcher ''round-robin'' [session_for ''a'' 1] (hinted_heap (PStr ''lru''))"
  let ?evs = "[ECallerWrite 0 (PDict []), ECallerAlloc (PList []), EStart, ERouterGet]"
  have sub: "submit ?d 0 example_uuid 1 = Inr (step example_lib (ESubmit 0 example_uuid 1) ?d, 0)"
    by (simp add: submit_def step_def queue_full_def heap_get_def Let_def example_dispatcher_def
          Dispatcher_init_def DispatcherConfig_default_def session_for_def hinted_heap_def)
  have body: "heap_get (heap ?d) 0 =
      Some (PDict [(''model'', PStr ''m''), (''messages'', PRef 1), (''metadata'', PRef 2)])"
    by (simp add: heap_get_def example_dispatcher_def Dispatcher_init_def session_for_def
          hinted_heap_def)
  have len: "length (heap ?d) = 4"
    by (simp add: example_dispatcher_def Dispatcher_init_def session_for_def hinted_heap_def)
  have nowrite: "\<forall>obj. ECallerWrite 4 obj \<notin> set ?evs" by simp
  from submit_copies_top_level [OF sub, of ?evs example_lib] body len nowrite
  have "heap_get (heap (run example_lib ?evs (step example_lib (ESubmit 0 example_uuid 1) ?d))) 4
      = Some (PDict [(''model'', PStr ''m''), (''messages'', PRef 1), (''metadata'', PRef 2)])"
    by auto
  with sub show ?thesis by simp
qed

text \<open>
  Claim C8 as stated fails for values nested in the request: \<open>dict(request)\<close> is a shallow
  copy. The caller submits a body whose \<open>metadata.routing.strategyHint\<close> is \<open>lru\<close> and,
  before the router takes the item, sets the hint in its own \<open>routing\<close> dict to \<open>health\<close>:
  the router reads \<open>health\<close> from the item.
\<close>

theorem nested_mutation_reaches_router:
  "request_hint
      (heap (run example_lib [EStart, ESubmit 0 example_uuid 1]
         (example_dispatcher ''round-robin'' [session_for ''a'' 1] (hinted_heap (PStr ''lru'')))))
      4
     = Inr (PStr ''lru'')
   \<and> router_task (run example_lib
        [EStart, ESubmit 0 example_uuid 1,
         ECallerWrite 3 (PDict [(''strategyHint'', PStr ''health'')]), ERouterGet]
        (example_dispatcher ''round-robin'' [session_for ''a'' 1] (hinted_heap (PStr ''lru''))))
     = Some (RPick \<lparr> request = 4, future = 0, created_ts = 1, task_id = ''task_0123456789ab'' \<rparr>
               (PStr ''health''))"
  by code_simp

end
